theory Spec2Isabelle
  imports Complex_Main
begin

section \<open>JavaScript values\<close>

text \<open>
  The codec of \<^verbatim>\<open>src/index.js\<close> is dynamically typed, so the embedding works on a
  datatype of JavaScript values.

  \<^item> A Number is \<open>NaN\<close>, an infinity, or a finite value. A finite Number is identified
    with the rational that its decimal rendering (Number::toString) denotes; the sign
    of zero is not kept (\<^verbatim>\<open>-0 === 0\<close>).
  \<^item> A Date object is its time value: milliseconds since the epoch, or \<open>None\<close> for an
    invalid Date (time value NaN).
  \<^item> A Buffer is its list of bytes.
  \<^item> A plain object is the list of its own enumerable properties in the order
    \<^verbatim>\<open>Object.keys\<close> reports them; keys are distinct in a well-formed object.
  \<^item> A function is opaque; only its \<^verbatim>\<open>length\<close> is kept.
  Strings are lists of 8-bit code units. Symbols and BigInts are not modelled.
\<close>

datatype jsnum = NaN | PosInf | NegInf | Fin rat

datatype jsval =
    Undefined
  | Null
  | Bool bool
  | Num jsnum
  | Str string
  | DateV "int option"
  | BufferV "nat list"
  | Arr "jsval list"
  | Obj "(string \<times> jsval) list"
  | Fun nat

text \<open>
  What the code can throw. \<open>InvalidParameterShape\<close> is
  \<^verbatim>\<open>Error("'parameters' must be an object or array")\<close>, \<open>InvalidParameterShape2\<close> is
  \<^verbatim>\<open>Error('Parameters must be an object or array')\<close>, and \<open>UnsupportedType n\<close> is
  \<^verbatim>\<open>Error(`'${n}' is an invalid type`)\<close>, kept with the name \<open>n\<close> that the message
  quotes. \<open>TypeError\<close> and \<open>RangeError\<close> are the engine's own exceptions.

  \<open>OutsideModel\<close> is no exception: it marks an input on which the embedding does not
  follow the code (a typed array or an object with a method of its own in the place of
  an array, a \<^verbatim>\<open>length\<close> or a column label that needs a conversion the value model
  lacks). No statement below is about such an input.
\<close>

datatype error =
    InvalidParameterShape
  | InvalidParameterShape2
  | UnsupportedType jsval
  | TypeError
  | RangeError
  | OutsideModel

subsection \<open>Decimal digits\<close>

definition digit_char :: "nat \<Rightarrow> char" where
  "digit_char d = char_of (48 + d)"

definition is_digit :: "char \<Rightarrow> bool" where
  "is_digit c = (48 \<le> (of_char c :: nat) \<and> (of_char c :: nat) \<le> 57)"

definition digit_val :: "char \<Rightarrow> nat" where
  "digit_val c = of_char c - 48"

text \<open>\<^verbatim>\<open>String(n)\<close> for a non-negative integer below \<open>10^21\<close>: its decimal digits.\<close>

fun show_nat :: "nat \<Rightarrow> string" where
  "show_nat n = (if n < 10 then [digit_char n] else show_nat (n div 10) @ [digit_char (n mod 10)])"

declare show_nat.simps [simp del]

definition show_int :: "int \<Rightarrow> string" where
  "show_int i = (if i < 0 then CHR ''-'' # show_nat (nat (- i)) else show_nat (nat i))"

text \<open>The number that a string of decimal digits denotes.\<close>

definition read_nat :: "string \<Rightarrow> nat" where
  "read_nat s = foldl (\<lambda>a c. 10 * a + digit_val c) 0 s"

subsection \<open>Primitive operations of the language\<close>

definition typeof :: "jsval \<Rightarrow> string" where
  "typeof v = (case v of
      Undefined \<Rightarrow> ''undefined''
    | Null \<Rightarrow> ''object''
    | Bool _ \<Rightarrow> ''boolean''
    | Num _ \<Rightarrow> ''number''
    | Str _ \<Rightarrow> ''string''
    | DateV _ \<Rightarrow> ''object''
    | BufferV _ \<Rightarrow> ''object''
    | Arr _ \<Rightarrow> ''object''
    | Obj _ \<Rightarrow> ''object''
    | Fun _ \<Rightarrow> ''function'')"

definition isArray :: "jsval \<Rightarrow> bool" where
  "isArray v = (case v of Arr _ \<Rightarrow> True | _ \<Rightarrow> False)"

definition isDate :: "jsval \<Rightarrow> bool" where
  "isDate v = (case v of DateV _ \<Rightarrow> True | _ \<Rightarrow> False)"

definition isBuffer :: "jsval \<Rightarrow> bool" where
  "isBuffer v = (case v of BufferV _ \<Rightarrow> True | _ \<Rightarrow> False)"

text \<open>ToBoolean: the falsy values are undefined, null, false, 0, NaN and the empty string.\<close>

definition truthy :: "jsval \<Rightarrow> bool" where
  "truthy v = (case v of
      Undefined \<Rightarrow> False
    | Null \<Rightarrow> False
    | Bool b \<Rightarrow> b
    | Num NaN \<Rightarrow> False
    | Num (Fin x) \<Rightarrow> x \<noteq> 0
    | Num _ \<Rightarrow> True
    | Str s \<Rightarrow> s \<noteq> []
    | _ \<Rightarrow> True)"

text \<open>
  Strict equality \<^verbatim>\<open>===\<close>. Primitives compare by value, with \<open>NaN\<close> unequal to itself.
  Objects compare by identity, which the value model does not keep: the code only ever
  compares against primitives (\<^verbatim>\<open>null\<close>, \<^verbatim>\<open>true\<close>, \<^verbatim>\<open>undefined\<close>, string literals and
  a Number against its own re-parse), where an object operand makes the result false.
\<close>

definition strict_eq :: "jsval \<Rightarrow> jsval \<Rightarrow> bool" where
  "strict_eq a b = (case (a, b) of
      (Undefined, Undefined) \<Rightarrow> True
    | (Null, Null) \<Rightarrow> True
    | (Bool x, Bool y) \<Rightarrow> x = y
    | (Num NaN, Num _) \<Rightarrow> False
    | (Num _, Num NaN) \<Rightarrow> False
    | (Num x, Num y) \<Rightarrow> x = y
    | (Str x, Str y) \<Rightarrow> x = y
    | _ \<Rightarrow> False)"

definition lookup :: "(string \<times> jsval) list \<Rightarrow> string \<Rightarrow> jsval" where
  "lookup kvs k = (case map_of kvs k of Some v \<Rightarrow> v | None \<Rightarrow> Undefined)"

text \<open>
  \<^verbatim>\<open>Object.keys(v)\<close> for a value other than null and undefined: the own enumerable
  string keys. Arrays, strings and Buffers have their indices as keys.
\<close>

definition js_keys :: "jsval \<Rightarrow> string list" where
  "js_keys v = (case v of
      Obj kvs \<Rightarrow> map fst kvs
    | Arr xs \<Rightarrow> map show_nat [0..<length xs]
    | Str s \<Rightarrow> map show_nat [0..<length s]
    | BufferV bs \<Rightarrow> map show_nat [0..<length bs]
    | _ \<Rightarrow> [])"

text \<open>The element of a list whose index has the decimal spelling \<open>k\<close>, if any.\<close>

definition at_key :: "'a list \<Rightarrow> string \<Rightarrow> 'a option" where
  "at_key xs k = (case filter (\<lambda>i. show_nat i = k) [0..<length xs] of
      [] \<Rightarrow> None | i # _ \<Rightarrow> Some (xs ! i))"

text \<open>
  Property read \<^verbatim>\<open>v[k]\<close> of an own property, on a value other than null and undefined
  (on those the read throws a TypeError, which the callers model). It serves where the
  code spells the key out, none of these keys being the name of an inherited member but
  \<^verbatim>\<open>length\<close>, and where the key is taken from \<^verbatim>\<open>Object.keys(v)\<close>.
\<close>

definition js_get :: "jsval \<Rightarrow> string \<Rightarrow> jsval" where
  "js_get v k = (case v of
      Obj kvs \<Rightarrow> lookup kvs k
    | Arr xs \<Rightarrow> (if k = ''length'' then Num (Fin (of_nat (length xs)))
                 else case at_key xs k of Some x \<Rightarrow> x | None \<Rightarrow> Undefined)
    | Str s \<Rightarrow> (if k = ''length'' then Num (Fin (of_nat (length s)))
                else case at_key s k of Some c \<Rightarrow> Str [c] | None \<Rightarrow> Undefined)
    | BufferV bs \<Rightarrow> (if k = ''length'' then Num (Fin (of_nat (length bs)))
                else case at_key bs k of Some b \<Rightarrow> Num (Fin (of_nat b)) | None \<Rightarrow> Undefined)
    | Fun n \<Rightarrow> (if k = ''length'' then Num (Fin (of_nat n)) else Undefined)
    | _ \<Rightarrow> Undefined)"

definition nullish :: "jsval \<Rightarrow> bool" where
  "nullish v = (v = Undefined \<or> v = Null)"

text \<open>Property read with the TypeError on null and undefined.\<close>

definition get_prop :: "jsval \<Rightarrow> string \<Rightarrow> error + jsval" where
  "get_prop v k = (if nullish v then Inl TypeError else Inr (js_get v k))"

text \<open>
  The names of the members that every plain object inherits from \<^verbatim>\<open>Object.prototype\<close>.
\<close>

definition object_prototype_names :: "string list" where
  "object_prototype_names =
     [''constructor'', ''__defineGetter__'', ''__defineSetter__'', ''hasOwnProperty'',
      ''__lookupGetter__'', ''__lookupSetter__'', ''isPrototypeOf'', ''propertyIsEnumerable'',
      ''toString'', ''valueOf'', ''__proto__'', ''toLocaleString'']"

text \<open>
  Property read \<^verbatim>\<open>v[k]\<close> with a key that is only known at run time, so that it can name
  an inherited member. On a plain object an own property is read as it is; a key that is
  not its own gives the inherited member when it names one, a function or object that the
  value model cannot express, and \<^verbatim>\<open>undefined\<close> otherwise. On any other value only own
  properties and \<^verbatim>\<open>length\<close> are modelled.
\<close>

definition js_read :: "jsval \<Rightarrow> string \<Rightarrow> error + jsval" where
  "js_read v k =
     (if nullish v then Inl TypeError
      else case v of
        Obj kvs \<Rightarrow>
          (if k \<in> set (map fst kvs) then Inr (lookup kvs k)
           else if k \<in> set object_prototype_names then Inl OutsideModel
           else Inr Undefined)
      | _ \<Rightarrow>
          (if k \<in> set (js_keys v) \<or> k = ''length'' then Inr (js_get v k)
           else Inl OutsideModel))"

text \<open>\<^verbatim>\<open>acc.concat(v)\<close>: an array argument is spread, anything else is appended.\<close>

definition js_concat :: "jsval list \<Rightarrow> jsval \<Rightarrow> jsval list" where
  "js_concat acc v = (case v of Arr xs \<Rightarrow> acc @ xs | _ \<Rightarrow> acc @ [v])"

text \<open>Sequencing of computations that may throw.\<close>

definition bindE :: "error + 'a \<Rightarrow> ('a \<Rightarrow> error + 'b) \<Rightarrow> error + 'b" where
  "bindE m f = (case m of Inl e \<Rightarrow> Inl e | Inr x \<Rightarrow> f x)"

subsection \<open>\<^verbatim>\<open>parseInt\<close> and \<^verbatim>\<open>parseFloat\<close> of a Number\<close>

text \<open>
  Both functions first render their argument with Number::toString and then read a
  prefix of the string.

  Number::toString writes plain decimal notation for \<open>10^-6 \<le> |x| < 10^21\<close> and exponent
  notation (\<^verbatim>\<open>d.ddde+N\<close>, \<^verbatim>\<open>d.ddde-N\<close>) outside; \<open>NaN\<close> and the infinities are written
  \<^verbatim>\<open>NaN\<close>, \<^verbatim>\<open>Infinity\<close>, \<^verbatim>\<open>-Infinity\<close>.

  \<^verbatim>\<open>parseInt\<close> reads an optional sign and the longest run of digits; no digit gives \<open>NaN\<close>.
  So it yields the integer part in the decimal range, the signed leading digit in
  the exponent ranges, and \<open>NaN\<close> for \<open>NaN\<close> and the infinities.
\<close>

fun lead_digit :: "nat \<Rightarrow> nat" where
  "lead_digit n = (if n < 10 then n else lead_digit (n div 10))"

declare lead_digit.simps [simp del]

text \<open>The first non-zero decimal digit of \<open>p / q\<close>, for \<open>0 < p\<close>.\<close>

function lead_frac :: "nat \<Rightarrow> nat \<Rightarrow> nat" where
  "lead_frac p q = (if p = 0 \<or> q \<le> p then lead_digit (p div q) else lead_frac (10 * p) q)"
  by pat_completeness auto
termination
  by (relation "measure (\<lambda>(p, q). q - p)") auto

declare lead_frac.simps [simp del]

definition js_trunc :: "rat \<Rightarrow> int" where
  "js_trunc x = (if 0 \<le> x then \<lfloor>x\<rfloor> else \<lceil>x\<rceil>)"

definition parseInt_num :: "jsnum \<Rightarrow> jsnum" where
  "parseInt_num v = (case v of
      NaN \<Rightarrow> NaN
    | PosInf \<Rightarrow> NaN
    | NegInf \<Rightarrow> NaN
    | Fin x \<Rightarrow>
        if x = 0 then Fin 0
        else if 1 / 10 ^ 6 \<le> \<bar>x\<bar> \<and> \<bar>x\<bar> < 10 ^ 21 then Fin (of_int (js_trunc x))
        else (let (p, q) = quotient_of \<bar>x\<bar>
              in Fin (sgn x * of_nat (lead_frac (nat p) (nat q)))))"

text \<open>
  \<^verbatim>\<open>parseFloat\<close> reads the longest prefix that is a decimal literal, which for the
  rendering of a Number is the whole string, \<^verbatim>\<open>Infinity\<close> and \<^verbatim>\<open>-Infinity\<close> included;
  \<^verbatim>\<open>NaN\<close> is no literal and gives \<open>NaN\<close>.
\<close>

definition parseFloat_num :: "jsnum \<Rightarrow> jsnum" where
  "parseFloat_num v = (case v of
      NaN \<Rightarrow> NaN
    | PosInf \<Rightarrow> PosInf
    | NegInf \<Rightarrow> NegInf
    | Fin x \<Rightarrow> Fin x)"

definition parseInt :: "jsval \<Rightarrow> jsval" where
  "parseInt v = (case v of Num n \<Rightarrow> Num (parseInt_num n) | _ \<Rightarrow> Num NaN)"

definition parseFloat :: "jsval \<Rightarrow> jsval" where
  "parseFloat v = (case v of Num n \<Rightarrow> Num (parseFloat_num n) | _ \<Rightarrow> Num NaN)"

section \<open>Dates\<close>

text \<open>
  The calendar functions of the language standard, on time values (milliseconds since
  the epoch) and day numbers.
\<close>

definition msPerDay :: int where
  "msPerDay = 86400000"

definition Day :: "int \<Rightarrow> int" where
  "Day t = t div msPerDay"

definition TimeWithinDay :: "int \<Rightarrow> int" where
  "TimeWithinDay t = t mod msPerDay"

definition DayFromYear :: "int \<Rightarrow> int" where
  "DayFromYear y =
     365 * (y - 1970) + (y - 1969) div 4 - (y - 1901) div 100 + (y - 1601) div 400"

definition isLeapYear :: "int \<Rightarrow> bool" where
  "isLeapYear y = (y mod 4 = 0 \<and> (y mod 100 \<noteq> 0 \<or> y mod 400 = 0))"

text \<open>
  The year of a day number: the largest \<open>y\<close> with \<open>DayFromYear y \<le> d\<close>. The mean year
  length gives an estimate that is off by at most one.
\<close>

definition YearFromDay :: "int \<Rightarrow> int" where
  "YearFromDay d =
     (let y = 1970 + (400 * d) div 146097
      in if DayFromYear (y + 1) \<le> d then y + 1
         else if DayFromYear y \<le> d then y
         else y - 1)"

definition YearFromTime :: "int \<Rightarrow> int" where
  "YearFromTime t = YearFromDay (Day t)"

definition DayWithinYear :: "int \<Rightarrow> int" where
  "DayWithinYear t = Day t - DayFromYear (YearFromTime t)"

definition InLeapYear :: "int \<Rightarrow> int" where
  "InLeapYear t = (if isLeapYear (YearFromTime t) then 1 else 0)"

text \<open>Months count from 0, as \<^verbatim>\<open>getUTCMonth\<close> reports them.\<close>

definition MonthFromTime :: "int \<Rightarrow> int" where
  "MonthFromTime t =
     (let d = DayWithinYear t; l = InLeapYear t
      in if d < 31 then 0
         else if d < 59 + l then 1
         else if d < 90 + l then 2
         else if d < 120 + l then 3
         else if d < 151 + l then 4
         else if d < 181 + l then 5
         else if d < 212 + l then 6
         else if d < 243 + l then 7
         else if d < 273 + l then 8
         else if d < 304 + l then 9
         else if d < 334 + l then 10
         else 11)"

definition DaysBeforeMonth :: "int \<Rightarrow> int \<Rightarrow> int" where
  "DaysBeforeMonth l m =
     (if m = 0 then 0
      else if m = 1 then 31
      else if m = 2 then 59 + l
      else if m = 3 then 90 + l
      else if m = 4 then 120 + l
      else if m = 5 then 151 + l
      else if m = 6 then 181 + l
      else if m = 7 then 212 + l
      else if m = 8 then 243 + l
      else if m = 9 then 273 + l
      else if m = 10 then 304 + l
      else 334 + l)"

definition DateFromTime :: "int \<Rightarrow> int" where
  "DateFromTime t =
     DayWithinYear t - DaysBeforeMonth (InLeapYear t) (MonthFromTime t) + 1"

definition HourFromTime :: "int \<Rightarrow> int" where
  "HourFromTime t = (t div 3600000) mod 24"

definition MinFromTime :: "int \<Rightarrow> int" where
  "MinFromTime t = (t div 60000) mod 60"

definition SecFromTime :: "int \<Rightarrow> int" where
  "SecFromTime t = (t div 1000) mod 60"

definition msFromTime :: "int \<Rightarrow> int" where
  "msFromTime t = t mod 1000"

definition MakeTime :: "int \<Rightarrow> int \<Rightarrow> int \<Rightarrow> int \<Rightarrow> int" where
  "MakeTime h m s ms = h * 3600000 + m * 60000 + s * 1000 + ms"

text \<open>The day number of a calendar date, for a month \<open>0 \<le> m < 12\<close>.\<close>

definition MakeDay :: "int \<Rightarrow> int \<Rightarrow> int \<Rightarrow> int" where
  "MakeDay y m d =
     DayFromYear y + DaysBeforeMonth (if isLeapYear y then 1 else 0) m + d - 1"

definition MakeDate :: "int \<Rightarrow> int \<Rightarrow> int" where
  "MakeDate day time = day * msPerDay + time"

definition TimeClip :: "int \<Rightarrow> int option" where
  "TimeClip t = (if \<bar>t\<bar> \<le> 8640000000000000 then Some t else None)"

text \<open>The time value of \<^verbatim>\<open>new Date(n)\<close> for a Number \<open>n\<close>.\<close>

definition time_of_num :: "jsnum \<Rightarrow> int option" where
  "time_of_num n = (case n of Fin x \<Rightarrow> TimeClip (js_trunc x) | _ \<Rightarrow> None)"

definition DaysInMonth :: "int \<Rightarrow> int \<Rightarrow> int" where
  "DaysInMonth y m =
     (if m = 1 then (if isLeapYear y then 29 else 28)
      else if m = 3 \<or> m = 5 \<or> m = 8 \<or> m = 10 then 30
      else 31)"

text \<open>
  What the codec takes from its host, the engine it runs on:
  \<^item> \<open>localTZA\<close>, the offset in milliseconds of local time from UTC at a time value, behind
    the local getters \<^verbatim>\<open>getFullYear\<close>, \<^verbatim>\<open>getHours\<close>, ...;
  \<^item> \<open>parseOther\<close>, the time value \<^verbatim>\<open>new Date(s)\<close> gives to a string other than the UTC
    timestamps below (the standard leaves the reading of such strings to the engine);
  \<^item> \<open>stringOf\<close>, the string that an array, a Buffer, a function, or an object with a
    \<^verbatim>\<open>toString\<close> or \<^verbatim>\<open>valueOf\<close> of its own converts to, by its own methods.
\<close>

record host =
  localTZA :: "int \<Rightarrow> int"
  parseOther :: "string \<Rightarrow> int option"
  stringOf :: "jsval \<Rightarrow> string"

subsection \<open>Reading a timestamp string\<close>

text \<open>
  The shape \<^verbatim>\<open>/^\d{4}-\d{2}-\d{2}(\s\d{2}:\d{2}:\d{2}(\.\d{3})?)?$/\<close> that
  \<^verbatim>\<open>formatFromTimeStamp\<close> tests for: a date of 10 characters, then nothing, or a
  white-space character and a time of 8 characters, then nothing or a dot and three
  digits.
\<close>

definition is_space :: "char \<Rightarrow> bool" where
  "is_space c = ((of_char c :: nat) \<in> {9, 10, 11, 12, 13, 32, 160})"

definition all_digits :: "string \<Rightarrow> bool" where
  "all_digits s = list_all is_digit s"

definition date_shape :: "string \<Rightarrow> bool" where
  "date_shape s =
     (length s = 10 \<and> all_digits (take 4 s) \<and> s ! 4 = CHR ''-'' \<and>
      all_digits (take 2 (drop 5 s)) \<and> s ! 7 = CHR ''-'' \<and> all_digits (drop 8 s))"

definition time_shape :: "string \<Rightarrow> bool" where
  "time_shape s =
     (length s = 8 \<and> all_digits (take 2 s) \<and> s ! 2 = CHR '':'' \<and>
      all_digits (take 2 (drop 3 s)) \<and> s ! 5 = CHR '':'' \<and> all_digits (drop 6 s))"

definition frac_shape :: "string \<Rightarrow> bool" where
  "frac_shape s = (length s = 4 \<and> s ! 0 = CHR ''.'' \<and> all_digits (drop 1 s))"

definition timestamp_regex :: "string \<Rightarrow> bool" where
  "timestamp_regex s =
     (date_shape (take 10 s) \<and>
      (length s = 10 \<or>
       (10 < length s \<and> is_space (s ! 10) \<and> time_shape (take 8 (drop 11 s)) \<and>
        (length s = 19 \<or> frac_shape (drop 19 s)))))"

text \<open>
  \<^verbatim>\<open>new Date(s)\<close> for a string. A string of the shape above with a space as the
  separator, a year of at least 100, calendar fields in range and the zone marker \<^verbatim>\<open>Z\<close>
  at its end is read as that UTC date and time (the engine of Node.js does so; the
  standard itself only fixes the spelling with \<^verbatim>\<open>T\<close>). Every other string is left to the
  host. That includes the years \<^verbatim>\<open>0000\<close> to \<^verbatim>\<open>0099\<close>: the engine reads a string that is
  not spelled with \<^verbatim>\<open>T\<close> by its older rules, which take a first number up to 31 for a
  month and a year below 100 for a year of the 20th or 21st century.
\<close>

definition utc_of_fields :: "nat \<Rightarrow> nat \<Rightarrow> nat \<Rightarrow> nat \<Rightarrow> nat \<Rightarrow> nat \<Rightarrow> nat \<Rightarrow> int option" where
  "utc_of_fields y mo d h mi s ms =
     (if 1 \<le> mo \<and> mo \<le> 12 \<and> 1 \<le> d \<and> int d \<le> DaysInMonth (int y) (int mo - 1) \<and>
         h < 24 \<and> mi < 60 \<and> s < 60
      then TimeClip (MakeDate (MakeDay (int y) (int mo - 1) (int d))
                              (MakeTime (int h) (int mi) (int s) (int ms)))
      else None)"

definition parse_utc_timestamp :: "string \<Rightarrow> int option" where
  "parse_utc_timestamp s =
     (if s \<noteq> [] \<and> last s = CHR ''Z'' \<and> timestamp_regex (butlast s) \<and>
         (length s = 11 \<or> s ! 10 = CHR '' '') \<and> 100 \<le> read_nat (take 4 s)
      then utc_of_fields
             (read_nat (take 4 s)) (read_nat (take 2 (drop 5 s))) (read_nat (take 2 (drop 8 s)))
             (if length s = 11 then 0 else read_nat (take 2 (drop 11 s)))
             (if length s = 11 then 0 else read_nat (take 2 (drop 14 s)))
             (if length s = 11 then 0 else read_nat (take 2 (drop 17 s)))
             (if length s = 24 then read_nat (take 3 (drop 20 s)) else 0)
      else None)"

definition newDate :: "host \<Rightarrow> string \<Rightarrow> jsval" where
  "newDate hst s =
     (case parse_utc_timestamp s of
        Some t \<Rightarrow> DateV (Some t)
      | None \<Rightarrow> DateV (parseOther hst s))"

section \<open>The codec\<close>

text \<open>
  The configuration object that \<^verbatim>\<open>init\<close> builds. \<^verbatim>\<open>treatAsLocalDate\<close> holds whatever
  value the caller gave; the code only ever tests it for truthiness, so the record keeps
  its truth value.
\<close>

record format_options =
  deserializeDate :: bool
  treatAsLocalDate :: bool

record config =
  engine :: string
  hydrateColumnNames :: bool
  formatOptions :: format_options

subsection \<open>Timestamps\<close>

text \<open>
  \<^verbatim>\<open>pad\<close>: \<^verbatim>\<open>'0'.repeat(num - (val + '').length) + val\<close>; \<^verbatim>\<open>repeat\<close> throws a RangeError
  on a negative count.
\<close>

definition pad :: "string \<Rightarrow> nat \<Rightarrow> error + string" where
  "pad val num =
     (if num < length val then Inl RangeError
      else Inr (replicate (num - length val) CHR ''0'' @ val))"

text \<open>
  \<^verbatim>\<open>formatToTimeStamp\<close>. On an invalid Date every getter gives \<open>NaN\<close>, and
  \<^verbatim>\<open>pad(NaN)\<close> asks for \<open>2 - 3\<close> zeros: a RangeError.
\<close>

definition formatToTimeStamp :: "host \<Rightarrow> int option \<Rightarrow> bool \<Rightarrow> error + string" where
  "formatToTimeStamp hst date tal =
     (case date of
        None \<Rightarrow> Inl RangeError
      | Some t0 \<Rightarrow>
          (let t = (if tal then t0 + localTZA hst t0 else t0);
               year = YearFromTime t;
               month = MonthFromTime t + 1;
               day = DateFromTime t;
               hours = HourFromTime t;
               minutes = MinFromTime t;
               seconds = SecFromTime t;
               ms = msFromTime t
           in bindE (if ms \<le> 0 then Inr [] else bindE (pad (show_int ms) 3) (\<lambda>f. Inr (CHR ''.'' # f)))
                (\<lambda>fraction.
              bindE (pad (show_int month) 2) (\<lambda>pmonth.
              bindE (pad (show_int day) 2) (\<lambda>pday.
              bindE (pad (show_int hours) 2) (\<lambda>phours.
              bindE (pad (show_int minutes) 2) (\<lambda>pminutes.
              bindE (pad (show_int seconds) 2) (\<lambda>pseconds.
                Inr (show_int year @ ''-'' @ pmonth @ ''-'' @ pday @ '' '' @
                     phours @ '':'' @ pminutes @ '':'' @ pseconds @ fraction)))))))))"

text \<open>
  The body of \<^verbatim>\<open>formatFromTimeStamp\<close> on a string: with the shape and without
  local-time interpretation the string is read with \<^verbatim>\<open>Z\<close> put after it, and as it is
  otherwise.
\<close>

definition date_of_string :: "host \<Rightarrow> string \<Rightarrow> bool \<Rightarrow> jsval" where
  "date_of_string hst s tal =
     (if \<not> tal \<and> timestamp_regex s then newDate hst (s @ ''Z'') else newDate hst s)"

text \<open>
  \<^verbatim>\<open>formatFromTimeStamp\<close>. The test converts its argument to a string first. The string
  of a primitive that is no string, of a Date and of a plain object
  (\<^verbatim>\<open>[object Object]\<close>) cannot have the shape, as it has no \<^verbatim>\<open>-\<close> after four digits;
  then \<^verbatim>\<open>new Date(v)\<close> copies a Date, takes a primitive as a Number of milliseconds and
  parses the string of a plain object. An array, a Buffer, a function, and an object
  with a \<^verbatim>\<open>toString\<close> or \<^verbatim>\<open>valueOf\<close> of its own convert to a string by their own
  methods, for the test, for the concatenation with \<^verbatim>\<open>Z\<close> and for \<^verbatim>\<open>new Date\<close> alike:
  the host says which string that is.
\<close>

definition formatFromTimeStamp :: "host \<Rightarrow> jsval \<Rightarrow> bool \<Rightarrow> jsval" where
  "formatFromTimeStamp hst v tal =
     (case v of
        Str s \<Rightarrow> date_of_string hst s tal
      | Undefined \<Rightarrow> DateV None
      | Null \<Rightarrow> DateV (Some 0)
      | Bool b \<Rightarrow> DateV (Some (if b then 1 else 0))
      | Num n \<Rightarrow> DateV (time_of_num n)
      | DateV t \<Rightarrow> DateV t
      | Obj kvs \<Rightarrow>
          (if ''toString'' \<in> set (map fst kvs) \<or> ''valueOf'' \<in> set (map fst kvs)
           then date_of_string hst (stringOf hst v) tal
           else newDate hst ''[object Object]'')
      | _ \<Rightarrow> date_of_string hst (stringOf hst v) tal)"

subsection \<open>Parameters\<close>

definition supportedTypes :: "string list" where
  "supportedTypes =
     [''arrayValue'', ''blobValue'', ''booleanValue'', ''doubleValue'',
      ''isNull'', ''longValue'', ''stringValue'', ''structValue'']"

text \<open>
  \<^verbatim>\<open>parseParams(args)\<close>; \<open>p0\<close> is \<^verbatim>\<open>args[0].parameters\<close> and \<open>a1\<close> is \<^verbatim>\<open>args[1]\<close>. The
  result is the array of parameters.
\<close>

definition parseParams :: "jsval \<Rightarrow> jsval \<Rightarrow> error + jsval list" where
  "parseParams p0 a1 =
     (case p0 of
        Arr ps \<Rightarrow> Inr ps
      | _ \<Rightarrow>
        if typeof p0 = ''object'' then Inr [p0]
        else (case a1 of
            Arr ps \<Rightarrow> Inr ps
          | _ \<Rightarrow>
            if typeof a1 = ''object'' then Inr [a1]
            else if truthy p0 then Inl InvalidParameterShape
            else if truthy a1 then Inl InvalidParameterShape2
            else Inr []))"

text \<open>\<^verbatim>\<open>splitParams(p)\<close>: one \<^verbatim>\<open>{ name: x, value: p[x] }\<close> for each key of \<open>p\<close>.\<close>

definition splitParams :: "jsval \<Rightarrow> jsval list" where
  "splitParams p = map (\<lambda>x. Obj [(''name'', Str x), (''value'', js_get p x)]) (js_keys p)"

text \<open>
  The test of \<^verbatim>\<open>normalizeParams\<close> for a parameter that is already in
  \<^verbatim>\<open>{ name, value[, cast] }\<close> form. It compares \<^verbatim>\<open>p.value\<close> with the string
  \<^verbatim>\<open>'undefined'\<close>.
\<close>

definition isAtomic :: "jsval \<Rightarrow> bool" where
  "isAtomic p =
     ((length (js_keys p) = 2 \<and> truthy (js_get p ''name'') \<and>
         \<not> strict_eq (js_get p ''value'') (Str ''undefined'')) \<or>
      (length (js_keys p) = 3 \<and> truthy (js_get p ''name'') \<and>
         \<not> strict_eq (js_get p ''value'') (Str ''undefined'') \<and> truthy (js_get p ''cast'')))"

text \<open>
  \<^verbatim>\<open>normalizeParams(params)\<close>, a left-to-right \<^verbatim>\<open>reduce\<close>. \<^verbatim>\<open>Object.keys\<close> throws a
  TypeError on null and undefined.
\<close>

fun normalizeParams :: "jsval list \<Rightarrow> error + jsval list"
  and normalizeParam :: "jsval \<Rightarrow> error + jsval list" where
  "normalizeParams [] = Inr []"
| "normalizeParams (p # ps) =
     bindE (normalizeParam p) (\<lambda>xs. bindE (normalizeParams ps) (\<lambda>ys. Inr (xs @ ys)))"
| "normalizeParam (Arr ps) = bindE (normalizeParams ps) (\<lambda>xs. Inr [Arr xs])"
| "normalizeParam p =
     (if nullish p then Inl TypeError
      else if isAtomic p then Inr [p]
      else Inr (splitParams p))"

text \<open>\<^verbatim>\<open>getType(val)\<close>: the name of the value field, \<^verbatim>\<open>null\<close>, or \<^verbatim>\<open>undefined\<close>.\<close>

definition getType :: "jsval \<Rightarrow> jsval" where
  "getType val =
     (if typeof val = ''string'' then Str ''stringValue''
      else if typeof val = ''boolean'' then Str ''booleanValue''
      else if typeof val = ''number'' \<and> strict_eq (parseInt val) val then Str ''longValue''
      else if typeof val = ''number'' \<and> strict_eq (parseFloat val) val then Str ''doubleValue''
      else if strict_eq val Null then Str ''isNull''
      else if isDate val then Str ''stringValue''
      else if isBuffer val then Str ''blobValue''
      else if typeof val = ''object'' \<and> length (js_keys val) = 1 \<and>
              hd (js_keys val) \<in> set supportedTypes then Null
      else Undefined)"

definition getTypeHint :: "jsval \<Rightarrow> jsval" where
  "getTypeHint val = (if isDate val then Str ''TIMESTAMP'' else Undefined)"

text \<open>
  \<^verbatim>\<open>formatType(name, value, type, typeHint, formatOptions)\<close>. The computed key is
  evaluated before the value, so an undefined type throws before any timestamp is
  formatted. The type is always a result of \<^verbatim>\<open>getType\<close>: the name of a value field,
  \<^verbatim>\<open>null\<close> or \<^verbatim>\<open>undefined\<close>.
\<close>

definition formatType ::
    "host \<Rightarrow> jsval \<Rightarrow> jsval \<Rightarrow> jsval \<Rightarrow> jsval \<Rightarrow> format_options option \<Rightarrow> error + jsval" where
  "formatType hst name val type typeHint fo =
     (let head =
            (if \<not> nullish typeHint then [(''name'', name), (''typeHint'', typeHint)]
             else [(''name'', name)])
      in if type = Null then Inr (Obj (head @ [(''value'', val)]))
         else (case type of
             Str tag \<Rightarrow>
               (if tag = [] then Inl (UnsupportedType name)
                else if tag = ''isNull'' then
                  Inr (Obj (head @ [(''value'', Obj [(tag, Bool True)])]))
                else (case val of
                    DateV d \<Rightarrow>
                      bindE (formatToTimeStamp hst d
                               (case fo of None \<Rightarrow> False | Some f \<Rightarrow> treatAsLocalDate f))
                        (\<lambda>s. Inr (Obj (head @ [(''value'', Obj [(tag, Str s)])])))
                  | _ \<Rightarrow> Inr (Obj (head @ [(''value'', Obj [(tag, val)])]))))
           | _ \<Rightarrow> Inl (UnsupportedType name)))"

definition formatParam :: "host \<Rightarrow> jsval \<Rightarrow> jsval \<Rightarrow> format_options option \<Rightarrow> error + jsval" where
  "formatParam hst n v fo = formatType hst n v (getType v) (getTypeHint v) fo"

text \<open>
  \<^verbatim>\<open>processParams(engine, params, formatOptions)\<close>; the result is the
  \<^verbatim>\<open>processedParams\<close> array. The \<^verbatim>\<open>row\<close> counter of the source is never read.
\<close>

fun processParams :: "host \<Rightarrow> string \<Rightarrow> format_options option \<Rightarrow> jsval list \<Rightarrow> error + jsval list"
  and processParam :: "host \<Rightarrow> string \<Rightarrow> format_options option \<Rightarrow> jsval \<Rightarrow> error + jsval" where
  "processParams hst eng fo [] = Inr []"
| "processParams hst eng fo (p # ps) =
     bindE (processParam hst eng fo p) (\<lambda>x. bindE (processParams hst eng fo ps) (\<lambda>ys. Inr (x # ys)))"
| "processParam hst eng fo (Arr ps) = bindE (processParams hst eng fo ps) (\<lambda>xs. Inr (Arr xs))"
| "processParam hst eng fo p =
     (if nullish p then Inl TypeError
      else formatParam hst (js_get p ''name'') (js_get p ''value'') fo)"

text \<open>The public \<^verbatim>\<open>formatParameters(p)\<close> of a codec instance with configuration \<open>cfg\<close>.\<close>

definition formatParameters :: "host \<Rightarrow> config \<Rightarrow> jsval \<Rightarrow> error + jsval" where
  "formatParameters hst cfg p =
     bindE (parseParams p Undefined) (\<lambda>ps.
     bindE (normalizeParams ps) (\<lambda>ns.
     bindE (processParams hst (engine cfg) (Some (formatOptions cfg)) ns) (\<lambda>r. Inr (Arr r))))"

subsection \<open>Results\<close>

text \<open>Numeric index \<^verbatim>\<open>v[i]\<close> on a value other than null and undefined.\<close>

definition js_index :: "jsval \<Rightarrow> nat \<Rightarrow> jsval" where
  "js_index v i = (case v of
      Arr xs \<Rightarrow> (if i < length xs then xs ! i else Undefined)
    | Str s \<Rightarrow> (if i < length s then Str [s ! i] else Undefined)
    | BufferV bs \<Rightarrow> (if i < length bs then Num (Fin (of_nat (bs ! i))) else Undefined)
    | Obj kvs \<Rightarrow> lookup kvs (show_nat i)
    | _ \<Rightarrow> Undefined)"

text \<open>
  The elements that \<^verbatim>\<open>v.map\<close> and \<^verbatim>\<open>v.reduce\<close> run over: \<open>v\<close> must be an array. On
  any other value the method is missing and the call throws a TypeError, unless the
  value brings a method of its own.
\<close>

definition elements :: "jsval \<Rightarrow> error + jsval list" where
  "elements v = (case v of
      Arr xs \<Rightarrow> Inr xs
    | BufferV _ \<Rightarrow> Inl OutsideModel
    | Obj kvs \<Rightarrow> (case lookup kvs ''map'' of Fun _ \<Rightarrow> Inl OutsideModel
                  | _ \<Rightarrow> (case lookup kvs ''reduce'' of Fun _ \<Rightarrow> Inl OutsideModel
                  | _ \<Rightarrow> Inl TypeError))
    | _ \<Rightarrow> Inl TypeError)"

text \<open>The conversion of a computed property key \<^verbatim>\<open>[k]\<close> to a string.\<close>

definition prop_key :: "jsval \<Rightarrow> error + string" where
  "prop_key k = (case k of
      Str s \<Rightarrow> Inr s
    | Undefined \<Rightarrow> Inr ''undefined''
    | Null \<Rightarrow> Inr ''null''
    | Bool b \<Rightarrow> Inr (if b then ''true'' else ''false'')
    | _ \<Rightarrow> Inl OutsideModel)"

text \<open>
  Object property order: keys that spell an array index come first, in ascending order,
  then the other keys in the order they were added.
\<close>

definition is_index_key :: "string \<Rightarrow> bool" where
  "is_index_key k =
     (k \<noteq> [] \<and> all_digits k \<and> (k = ''0'' \<or> hd k \<noteq> CHR ''0'') \<and> read_nat k < 4294967295)"

fun insert_index_key :: "string \<Rightarrow> jsval \<Rightarrow> (string \<times> jsval) list \<Rightarrow> (string \<times> jsval) list" where
  "insert_index_key k v [] = [(k, v)]"
| "insert_index_key k v ((k', v') # kvs) =
     (if is_index_key k' \<and> read_nat k' < read_nat k then (k', v') # insert_index_key k v kvs
      else (k, v) # (k', v') # kvs)"

text \<open>
  Writing the own property \<open>k\<close> of a plain object with the properties \<open>kvs\<close>: a key it
  has keeps its place, a new one is put where the property order has it.
\<close>

definition put_own :: "(string \<times> jsval) list \<Rightarrow> string \<Rightarrow> jsval \<Rightarrow> (string \<times> jsval) list" where
  "put_own kvs k v =
     (if k \<in> fst ` set kvs then map (\<lambda>(k', v'). if k' = k then (k', v) else (k', v')) kvs
      else if is_index_key k then insert_index_key k v kvs
      else kvs @ [(k, v)])"

text \<open>
  \<^verbatim>\<open>Object.assign(acc, { [k]: v })\<close> on the properties of a plain object \<open>acc\<close>. The
  assignment \<^verbatim>\<open>acc[k] = v\<close> writes an own property, except for the key \<^verbatim>\<open>__proto__\<close>: that
  one runs the setter inherited from \<^verbatim>\<open>Object.prototype\<close>, which leaves \<open>acc\<close> without
  such a key. The setter ignores a primitive other than \<^verbatim>\<open>null\<close>; with \<^verbatim>\<open>null\<close> or an
  object it replaces the prototype of \<open>acc\<close>, which the value model does not keep.
\<close>

definition obj_assign ::
    "(string \<times> jsval) list \<Rightarrow> string \<Rightarrow> jsval \<Rightarrow> error + (string \<times> jsval) list" where
  "obj_assign kvs k v =
     (if k = ''__proto__'' then
        (if typeof v = ''object'' \<or> typeof v = ''function'' then Inl OutsideModel else Inr kvs)
      else Inr (put_own kvs k v))"

text \<open>\<^verbatim>\<open>formatRecordValue(value, typeName, formatOptions)\<close>.\<close>

definition dateTypeNames :: "string list" where
  "dateTypeNames = [''DATE'', ''DATETIME'', ''TIMESTAMP'', ''TIMESTAMP WITH TIME ZONE'']"

definition formatRecordValue :: "host \<Rightarrow> jsval \<Rightarrow> jsval \<Rightarrow> format_options option \<Rightarrow> jsval" where
  "formatRecordValue hst val typeName fo =
     (if (case fo of None \<Rightarrow> False | Some f \<Rightarrow> deserializeDate f) \<and>
         (case typeName of Str t \<Rightarrow> t \<in> set dateTypeNames | _ \<Rightarrow> False)
      then formatFromTimeStamp hst val
             ((case fo of None \<Rightarrow> False | Some f \<Rightarrow> treatAsLocalDate f) \<or>
              strict_eq typeName (Str ''TIMESTAMP WITH TIME ZONE''))
      else val)"

text \<open>
  One entry of the \<^verbatim>\<open>fmap\<close> of \<^verbatim>\<open>formatRecords\<close>: the column's label and type name,
  and the value field found for the column (\<^verbatim>\<open>undefined\<close> until it is found). A property
  that the entry lacks reads as \<^verbatim>\<open>undefined\<close>.
\<close>

record fmap_entry =
  e_label :: jsval
  e_typeName :: jsval
  e_field :: jsval

text \<open>The callback of \<^verbatim>\<open>recs[0].map\<close> for index \<open>i\<close>.\<close>

definition fmap_entry_for :: "jsval \<Rightarrow> nat \<Rightarrow> error + fmap_entry" where
  "fmap_entry_for columns i =
     (if truthy columns then
        bindE (get_prop (js_index columns i) ''label'') (\<lambda>l.
        bindE (get_prop (js_index columns i) ''typeName'') (\<lambda>t.
          Inr \<lparr> e_label = l, e_typeName = t, e_field = Undefined \<rparr>))
      else Inr \<lparr> e_label = Undefined, e_typeName = Undefined, e_field = Undefined \<rparr>)"

fun make_entries :: "jsval \<Rightarrow> nat \<Rightarrow> nat \<Rightarrow> error + fmap_entry list" where
  "make_entries columns i 0 = Inr []"
| "make_entries columns i (Suc n) =
     bindE (fmap_entry_for columns i) (\<lambda>e.
     bindE (make_entries columns (Suc i) n) (\<lambda>es. Inr (e # es)))"

definition make_fmap :: "jsval \<Rightarrow> jsval \<Rightarrow> error + fmap_entry list" where
  "make_fmap recs columns =
     (if truthy recs \<and> truthy (js_index recs 0) then
        bindE (elements (js_index recs 0)) (\<lambda>xs. make_entries columns 0 (length xs))
      else Inr [])"

text \<open>
  The accumulator of a row: \<^verbatim>\<open>Object.assign(acc, { [fmap[i].label]: v })\<close> when
  hydrating, \<^verbatim>\<open>acc.concat(v)\<close> otherwise. It starts as \<^verbatim>\<open>{}\<close> when hydrating and as
  \<^verbatim>\<open>[]\<close> otherwise, so it is an object in the first case and an array in the second.
\<close>

definition add_value :: "bool \<Rightarrow> fmap_entry list \<Rightarrow> nat \<Rightarrow> jsval \<Rightarrow> jsval \<Rightarrow> error + jsval" where
  "add_value hydrate fmap i acc v =
     (if hydrate then
        (case acc of
           Obj kvs \<Rightarrow>
             (if i < length fmap then
                bindE (prop_key (e_label (fmap ! i))) (\<lambda>k.
                bindE (obj_assign kvs k v) (\<lambda>kvs'. Inr (Obj kvs')))
              else Inl TypeError)
         | _ \<Rightarrow> Inl OutsideModel)
      else
        (case acc of
           Arr xs \<Rightarrow> Inr (Arr (js_concat xs v))
         | _ \<Rightarrow> Inl OutsideModel))"

text \<open>The keys of a field that can be its value field: not \<^verbatim>\<open>isNull\<close>, value not null.\<close>

definition value_keys :: "jsval \<Rightarrow> string list" where
  "value_keys fld =
     filter (\<lambda>t. t \<noteq> ''isNull'' \<and> \<not> strict_eq (js_get fld t) Null) (js_keys fld)"

text \<open>
  The body of \<^verbatim>\<open>rec.reduce\<close> for the field \<open>fld\<close> at index \<open>i\<close>, with the \<^verbatim>\<open>fmap\<close> as
  state. The discovery loop assigns \<^verbatim>\<open>fmap[i].field\<close> once per candidate key, so the
  last one stays.
\<close>

definition format_field ::
    "host \<Rightarrow> bool \<Rightarrow> format_options option \<Rightarrow> fmap_entry list \<Rightarrow> jsval \<Rightarrow> nat \<Rightarrow> jsval
       \<Rightarrow> error + (fmap_entry list \<times> jsval)" where
  "format_field hst hydrate fo fmap acc i fld =
     (if nullish fld then Inl TypeError
      else if strict_eq (js_get fld ''isNull'') (Bool True) then
        bindE (add_value hydrate fmap i acc Null) (\<lambda>acc'. Inr (fmap, acc'))
      else if i < length fmap \<and> truthy (e_field (fmap ! i)) then
        bindE (prop_key (e_field (fmap ! i))) (\<lambda>k.
        bindE (js_read fld k) (\<lambda>w.
        bindE (add_value hydrate fmap i acc (formatRecordValue hst w (e_typeName (fmap ! i)) fo))
          (\<lambda>acc'. Inr (fmap, acc'))))
      else if i < length fmap then
        (let e = fmap ! i;
             e' = (if value_keys fld = [] then e else e \<lparr> e_field := Str (last (value_keys fld)) \<rparr>);
             fmap' = fmap [i := e']
         in bindE (prop_key (e_field e')) (\<lambda>k.
            bindE (js_read fld k) (\<lambda>w.
            bindE (add_value hydrate fmap' i acc (formatRecordValue hst w (e_typeName e') fo))
              (\<lambda>acc'. Inr (fmap', acc')))))
      else Inl TypeError)"

fun format_fields ::
    "host \<Rightarrow> bool \<Rightarrow> format_options option \<Rightarrow> fmap_entry list \<Rightarrow> jsval \<Rightarrow> nat \<Rightarrow> jsval list
       \<Rightarrow> error + (fmap_entry list \<times> jsval)" where
  "format_fields hst hydrate fo fmap acc i [] = Inr (fmap, acc)"
| "format_fields hst hydrate fo fmap acc i (fld # flds) =
     bindE (format_field hst hydrate fo fmap acc i fld) (\<lambda>(fmap', acc').
       format_fields hst hydrate fo fmap' acc' (Suc i) flds)"

text \<open>One row: \<^verbatim>\<open>rec.reduce(..., hydrate ? {} : [])\<close>.\<close>

definition format_row ::
    "host \<Rightarrow> bool \<Rightarrow> format_options option \<Rightarrow> fmap_entry list \<Rightarrow> jsval
       \<Rightarrow> error + (fmap_entry list \<times> jsval)" where
  "format_row hst hydrate fo fmap rec =
     (if nullish rec then Inl TypeError
      else bindE (elements rec) (\<lambda>flds.
        format_fields hst hydrate fo fmap (if hydrate then Obj [] else Arr []) 0 flds))"

fun format_rows ::
    "host \<Rightarrow> bool \<Rightarrow> format_options option \<Rightarrow> fmap_entry list \<Rightarrow> jsval list \<Rightarrow> error + jsval list" where
  "format_rows hst hydrate fo fmap [] = Inr []"
| "format_rows hst hydrate fo fmap (rec # recs) =
     bindE (format_row hst hydrate fo fmap rec) (\<lambda>(fmap', row).
     bindE (format_rows hst hydrate fo fmap' recs) (\<lambda>rows. Inr (row # rows)))"

text \<open>\<^verbatim>\<open>formatRecords(recs, columns, hydrate, formatOptions)\<close>.\<close>

definition formatRecords ::
    "host \<Rightarrow> jsval \<Rightarrow> jsval \<Rightarrow> bool \<Rightarrow> format_options option \<Rightarrow> error + jsval" where
  "formatRecords hst recs columns hydrate fo =
     bindE (make_fmap recs columns) (\<lambda>fmap.
       if truthy recs then
         bindE (elements recs) (\<lambda>rows.
         bindE (format_rows hst hydrate fo fmap rows) (\<lambda>out. Inr (Arr out)))
       else Inr (Arr []))"

text \<open>
  The test \<^verbatim>\<open>g && g.length > 0\<close> and the object it selects:
  \<^verbatim>\<open>{ insertId: g[0].longValue }\<close> or \<^verbatim>\<open>{}\<close>.
\<close>

definition positive :: "jsval \<Rightarrow> error + bool" where
  "positive v = (case v of
      Num (Fin x) \<Rightarrow> Inr (0 < x)
    | Num PosInf \<Rightarrow> Inr True
    | Num _ \<Rightarrow> Inr False
    | Undefined \<Rightarrow> Inr False
    | Null \<Rightarrow> Inr False
    | Bool b \<Rightarrow> Inr b
    | _ \<Rightarrow> Inl OutsideModel)"

definition insertId_of :: "jsval \<Rightarrow> error + (string \<times> jsval) list" where
  "insertId_of g =
     (if truthy g then
        bindE (positive (js_get g ''length'')) (\<lambda>pos.
          if pos then bindE (get_prop (js_index g 0) ''longValue'') (\<lambda>v. Inr [(''insertId'', v)])
          else Inr [])
      else Inr [])"

text \<open>\<^verbatim>\<open>formatUpdateResults(res)\<close>.\<close>

fun update_results :: "jsval list \<Rightarrow> error + jsval list" where
  "update_results [] = Inr []"
| "update_results (x # xs) =
     bindE (get_prop x ''generatedFields'') (\<lambda>g.
     bindE (insertId_of g) (\<lambda>kvs.
     bindE (update_results xs) (\<lambda>ys. Inr (Obj kvs # ys))))"

definition formatUpdateResults :: "jsval \<Rightarrow> error + jsval" where
  "formatUpdateResults res = bindE (elements res) (\<lambda>xs. bindE (update_results xs) (\<lambda>ys. Inr (Arr ys)))"

text \<open>
  \<^verbatim>\<open>formatResults(r, hydrate, includeMeta, formatOptions)\<close>: the five argument objects of
  \<^verbatim>\<open>Object.assign\<close> are evaluated in order and merged; their keys are distinct.
\<close>

definition formatResults ::
    "host \<Rightarrow> jsval \<Rightarrow> bool \<Rightarrow> jsval \<Rightarrow> format_options option \<Rightarrow> error + jsval" where
  "formatResults hst r hydrate includeMeta fo =
     (if nullish r then Inl TypeError
      else
        (let columnMetadata = js_get r ''columnMetadata'';
             numberOfRecordsUpdated = js_get r ''numberOfRecordsUpdated'';
             records = js_get r ''records'';
             generatedFields = js_get r ''generatedFields'';
             updateResults = js_get r ''updateResults''
         in bindE (Inr (if truthy includeMeta then [(''columnMetadata'', columnMetadata)] else []))
              (\<lambda>meta.
            bindE (Inr (if numberOfRecordsUpdated \<noteq> Undefined \<and> \<not> truthy records
                        then [(''numberOfRecordsUpdated'', numberOfRecordsUpdated)] else []))
              (\<lambda>count.
            bindE (if truthy records
                   then bindE (formatRecords hst records columnMetadata hydrate fo)
                          (\<lambda>rs. Inr [(''records'', rs)])
                   else Inr [])
              (\<lambda>recs.
            bindE (if truthy updateResults
                   then bindE (formatUpdateResults updateResults) (\<lambda>us. Inr [(''updateResults'', us)])
                   else Inr [])
              (\<lambda>upd.
            bindE (insertId_of generatedFields)
              (\<lambda>ins. Inr (Obj (meta @ count @ recs @ upd @ ins)))))))))"

text \<open>The public \<^verbatim>\<open>formatResponse(r)\<close> of a codec instance with configuration \<open>cfg\<close>.\<close>

definition formatResponse :: "host \<Rightarrow> config \<Rightarrow> jsval \<Rightarrow> error + jsval" where
  "formatResponse hst cfg r =
     (if nullish r then Inl TypeError
      else formatResults hst r (hydrateColumnNames cfg) (js_get r ''columnMetadata'')
             (Some (formatOptions cfg)))"

text \<open>
  \<^verbatim>\<open>init(params)\<close>: the configuration of a codec instance. A missing argument stands for
  \<^verbatim>\<open>{}\<close>.
\<close>

definition init :: "jsval \<Rightarrow> error + config" where
  "init params =
     (let ps = (if params = Undefined then Obj [] else params)
      in if ps = Null then Inl TypeError
         else
           (let fo = js_get ps ''formatOptions''
            in if fo = Null then Inl TypeError
               else Inr \<lparr>
                 engine = (case js_get ps ''engine'' of Str s \<Rightarrow> s | _ \<Rightarrow> ''mysql''),
                 hydrateColumnNames =
                   (case js_get ps ''hydrateColumnNames'' of Bool b \<Rightarrow> b | _ \<Rightarrow> True),
                 formatOptions = \<lparr>
                   deserializeDate =
                     (if typeof fo = ''object'' \<and> strict_eq (js_get fo ''deserializeDate'') (Bool False)
                      then False else True),
                   treatAsLocalDate =
                     (typeof fo = ''object'' \<and> truthy (js_get fo ''treatAsLocalDate'')) \<rparr> \<rparr>))"

section \<open>Sample environments\<close>

text \<open>The configuration of \<^verbatim>\<open>init()\<close>: every option at its default.\<close>

definition default_config :: config where
  "default_config =
     \<lparr> engine = ''mysql'', hydrateColumnNames = True,
       formatOptions = \<lparr> deserializeDate = True, treatAsLocalDate = False \<rparr> \<rparr>"

definition positional_config :: config where
  "positional_config = default_config \<lparr> hydrateColumnNames := False \<rparr>"

text \<open>
  A host whose clock is on a fixed zone one hour east of UTC. Of the strings that are no
  UTC timestamp it reads the ones spelled \<^verbatim>\<open>Y-MM-DD HH:MM:SS\<close> with a year of five or more
  digits, as local time (the fallback of Node.js for a year that is no ISO year). As the
  string of an array of one string it gives that string; the strings of the other values
  that convert by their own methods are not needed in the examples and are left empty.
\<close>

definition local_timestamp :: "string \<Rightarrow> int option" where
  "local_timestamp s =
     (let y = takeWhile is_digit s; r = dropWhile is_digit s
      in if 5 \<le> length y \<and> length r = 15 \<and> hd r = CHR ''-'' \<and>
            timestamp_regex (''0000'' @ r) \<and> r ! 6 = CHR '' ''
         then (case utc_of_fields (read_nat y) (read_nat (take 2 (drop 1 r)))
                      (read_nat (take 2 (drop 4 r))) (read_nat (take 2 (drop 7 r)))
                      (read_nat (take 2 (drop 10 r))) (read_nat (take 2 (drop 13 r))) 0 of
                 Some t \<Rightarrow> TimeClip (t - 3600000)
               | None \<Rightarrow> None)
         else None)"

definition sample_string :: "jsval \<Rightarrow> string" where
  "sample_string v = (case v of Arr [Str s] \<Rightarrow> s | _ \<Rightarrow> [])"

definition host_east :: host where
  "host_east =
     \<lparr> localTZA = (\<lambda>t. 3600000), parseOther = local_timestamp, stringOf = sample_string \<rparr>"

section \<open>The projection of records, column by column\<close>

text \<open>
  \<^verbatim>\<open>formatRecords\<close> goes through the rows with the \<^verbatim>\<open>fmap\<close> as its state. The
  definitions of this section say in the words of the specification what it computes,
  one column at a time and without state. They are written on the fields as data and
  use nothing of the code of \<^verbatim>\<open>formatRecords\<close>.

  A raw field is a plain object. None of its keys is empty or the name of a member
  inherited from \<^verbatim>\<open>Object.prototype\<close>; the eight tag names and \<^verbatim>\<open>isNull\<close> are such keys.
\<close>

definition raw_field :: "jsval \<Rightarrow> bool" where
  "raw_field fld =
     (case fld of
        Obj kvs \<Rightarrow>
          distinct (map fst kvs) \<and>
          list_all (\<lambda>k. k \<noteq> [] \<and> k \<notin> set object_prototype_names) (map fst kvs)
      | _ \<Rightarrow> False)"

text \<open>A field carries the null marker when its \<^verbatim>\<open>isNull\<close> is \<^verbatim>\<open>true\<close>.\<close>

definition null_marked :: "jsval \<Rightarrow> bool" where
  "null_marked fld =
     (case fld of Obj kvs \<Rightarrow> (''isNull'', Bool True) \<in> set kvs | _ \<Rightarrow> False)"

text \<open>
  The tags that a field has populated: its keys other than \<^verbatim>\<open>isNull\<close> whose value is
  not \<^verbatim>\<open>null\<close>, in the order of the field. A field of the wire format has at most one.
\<close>

definition populated_tags :: "jsval \<Rightarrow> string list" where
  "populated_tags fld =
     (case fld of
        Obj kvs \<Rightarrow> map fst (filter (\<lambda>(k, v). k \<noteq> ''isNull'' \<and> v \<noteq> Null) kvs)
      | _ \<Rightarrow> [])"

text \<open>
  A field is present and non-null when it does not carry the null marker and has a
  populated tag.
\<close>

definition present_non_null :: "jsval \<Rightarrow> bool" where
  "present_non_null fld = (\<not> null_marked fld \<and> populated_tags fld \<noteq> [])"

text \<open>
  The tag of a column, given the fields of the column from the first row down to the
  current one: the populated tag of the first field that is present and non-null (the
  last one, should that field have several), or \<^verbatim>\<open>undefined\<close> when there is none yet.
\<close>

definition discovered_tag :: "jsval list \<Rightarrow> jsval" where
  "discovered_tag col =
     (case find present_non_null col of
        None \<Rightarrow> Undefined
      | Some fld \<Rightarrow> Str (last (populated_tags fld)))"

definition column_upto :: "jsval list list \<Rightarrow> nat \<Rightarrow> nat \<Rightarrow> jsval list" where
  "column_upto rows i j = map (\<lambda>row. row ! j) (take (Suc i) rows)"

definition tag_key :: "jsval \<Rightarrow> string" where
  "tag_key t = (case t of Str s \<Rightarrow> s | _ \<Rightarrow> ''undefined'')"

text \<open>
  The value projected for the field in row \<open>i\<close> and column \<open>j\<close>, for a column of type
  name \<open>tn\<close>: \<^verbatim>\<open>null\<close> for a field that carries the null marker, and otherwise the
  field unwrapped with the tag of its column, which is its own property of that name
  (\<^verbatim>\<open>undefined\<close> when it has none), passed through the value coercer. As long as the
  column has no tag, the property read is the one named \<^verbatim>\<open>undefined\<close>.
\<close>

definition projected_value ::
    "host \<Rightarrow> format_options option \<Rightarrow> jsval \<Rightarrow> jsval list list \<Rightarrow> nat \<Rightarrow> nat \<Rightarrow> jsval" where
  "projected_value hst fo tn rows i j =
     (if null_marked (rows ! i ! j) then Null
      else formatRecordValue hst
             (js_get (rows ! i ! j) (tag_key (discovered_tag (column_upto rows i j)))) tn fo)"

definition label_key :: "fmap_entry \<Rightarrow> string" where
  "label_key e = (case prop_key (e_label e) of Inr k \<Rightarrow> k | Inl _ \<Rightarrow> [])"

text \<open>
  A projected row: an object keyed by the column labels when hydrating, the array of the
  values otherwise.
\<close>

definition projected_row :: "bool \<Rightarrow> string list \<Rightarrow> jsval list \<Rightarrow> jsval" where
  "projected_row hydrate labels vals =
     (if hydrate then Obj (foldl (\<lambda>kvs (k, v). put_own kvs k v) [] (zip labels vals))
      else Arr (foldl js_concat [] vals))"

text \<open>
  The result set of the specification's example: the first row has a null in its second
  column, the second row has the string \<^verbatim>\<open>x\<close> there.
\<close>

definition example_records :: "jsval list list" where
  "example_records =
     [[Obj [(''longValue'', Num (Fin 1))], Obj [(''isNull'', Bool True)]],
      [Obj [(''longValue'', Num (Fin 2))], Obj [(''stringValue'', Str ''x'')]]]"

definition example_columns :: jsval where
  "example_columns =
     Arr [Obj [(''label'', Str ''id''), (''typeName'', Str ''INT'')],
          Obj [(''label'', Str ''note''), (''typeName'', Str ''VARCHAR'')]]"

definition example_fmap :: "fmap_entry list" where
  "example_fmap =
     [\<lparr> e_label = Str ''id'', e_typeName = Str ''INT'', e_field = Undefined \<rparr>,
      \<lparr> e_label = Str ''note'', e_typeName = Str ''VARCHAR'', e_field = Undefined \<rparr>]"




subsection \<open>Notions for the proofs\<close>

text \<open>
  One step of the \<^verbatim>\<open>fmap\<close> entry of a column: what the entry holds as its value field
  after the field \<open>fld\<close> of the column has been processed, and the value that is
  projected for \<open>fld\<close>.
\<close>

definition learn :: "jsval \<Rightarrow> jsval \<Rightarrow> jsval" where
  "learn t fld =
     (if null_marked fld \<or> truthy t \<or> populated_tags fld = [] then t
      else Str (last (populated_tags fld)))"

definition value_of :: "host \<Rightarrow> format_options option \<Rightarrow> jsval \<Rightarrow> jsval \<Rightarrow> jsval \<Rightarrow> jsval" where
  "value_of hst fo t tn fld =
     (if null_marked fld then Null
      else formatRecordValue hst (js_get fld (tag_key t)) tn fo)"

definition learn_entry :: "fmap_entry \<Rightarrow> jsval \<Rightarrow> fmap_entry" where
  "learn_entry e fld = e\<lparr>e_field := learn (e_field e) fld\<rparr>"

definition entry_value :: "host \<Rightarrow> format_options option \<Rightarrow> fmap_entry \<Rightarrow> jsval \<Rightarrow> jsval" where
  "entry_value hst fo e fld = value_of hst fo (learn (e_field e) fld) (e_typeName e) fld"

definition add1 :: "bool \<Rightarrow> jsval \<Rightarrow> string \<Rightarrow> jsval \<Rightarrow> jsval" where
  "add1 hydrate acc k v =
     (if hydrate then (case acc of Obj kvs \<Rightarrow> Obj (put_own kvs k v) | _ \<Rightarrow> acc)
      else (case acc of Arr xs \<Rightarrow> Arr (js_concat xs v) | _ \<Rightarrow> acc))"

text \<open>The invariants of the run: the shapes of tags, accumulators, entries, fields, rows.\<close>

definition good_tag :: "jsval \<Rightarrow> bool" where
  "good_tag t =
     (t = Undefined \<or> (\<exists>s. t = Str s \<and> s \<noteq> [] \<and> s \<notin> set object_prototype_names))"

definition good_acc :: "bool \<Rightarrow> jsval \<Rightarrow> bool" where
  "good_acc hydrate acc = (if hydrate then (\<exists>kvs. acc = Obj kvs) else (\<exists>xs. acc = Arr xs))"

definition good_entry :: "bool \<Rightarrow> fmap_entry \<Rightarrow> bool" where
  "good_entry hydrate e =
     (good_tag (e_field e) \<and>
      (hydrate \<longrightarrow> (\<exists>k. prop_key (e_label e) = Inr k \<and> k \<noteq> ''__proto__'')))"

definition good_row :: "nat \<Rightarrow> jsval list \<Rightarrow> bool" where
  "good_row n r = (length r = n \<and> list_all raw_field r)"

text \<open>
  The timestamp of 19 characters that \<^verbatim>\<open>formatToTimeStamp\<close> writes for a year of four
  digits and no milliseconds.
\<close>

definition stamp19 :: "nat \<Rightarrow> nat \<Rightarrow> nat \<Rightarrow> nat \<Rightarrow> nat \<Rightarrow> nat \<Rightarrow> string" where
  "stamp19 y mo d h mi s =
     [digit_char (y div 1000), digit_char (y div 100 mod 10), digit_char (y div 10 mod 10),
      digit_char (y mod 10), CHR ''-'', digit_char (mo div 10), digit_char (mo mod 10), CHR ''-'',
      digit_char (d div 10), digit_char (d mod 10), CHR '' '',
      digit_char (h div 10), digit_char (h mod 10), CHR '':'',
      digit_char (mi div 10), digit_char (mi mod 10), CHR '':'',
      digit_char (s div 10), digit_char (s mod 10)]"

section \<open>Type inference of numbers\<close>

lemma bindE_Inr: "bindE (Inr x) f = f x" and bindE_Inl: "bindE (Inl e) f = Inl e"
  by (simp_all add: bindE_def)

lemma lead_digit_lt: "lead_digit n < 10"
  by (induction n rule: lead_digit.induct) (simp add: lead_digit.simps)

lemma lead_frac_lt: "lead_frac p q < 10"
  by (induction p q rule: lead_frac.induct) (simp add: lead_frac.simps lead_digit_lt)

lemma strict_eq_Num: "strict_eq (Num a) (Num b) = (a \<noteq> NaN \<and> b \<noteq> NaN \<and> a = b)"
  by (cases a; cases b) (simp_all add: strict_eq_def)

lemma strict_eq_Null: "strict_eq v Null = (v = Null)"
  by (cases v) (simp_all add: strict_eq_def split: jsnum.splits)

lemma js_trunc_eq_iff: "(of_int (js_trunc x) = x) = (x \<in> \<int>)"
proof
  assume "of_int (js_trunc x) = x"
  then show "x \<in> \<int>" by (metis Ints_of_int)
next
  assume "x \<in> \<int>"
  then obtain k where "x = of_int k" by (auto simp: Ints_def)
  then show "of_int (js_trunc x) = x" by (simp add: js_trunc_def)
qed

lemma abs_int_ge_1:
  fixes x :: rat
  assumes "x \<in> \<int>" "x \<noteq> 0"
  shows "1 \<le> \<bar>x\<bar>"
proof -
  from assms obtain k where k: "x = of_int k" by (auto simp: Ints_def)
  with assms have "k \<noteq> 0" by auto
  then have "1 \<le> \<bar>k\<bar>" by simp
  then show ?thesis unfolding k by (metis of_int_abs of_int_1_le_iff)
qed

text \<open>
  The integer parse of a finite Number gives the Number back exactly when it is an
  integer below \<open>10^21\<close> in magnitude: a fraction loses its fractional part, and from
  \<open>10^21\<close> on the exponent notation leaves only the leading digit.
\<close>

lemma parseInt_eq_iff:
  "strict_eq (parseInt (Num (Fin x))) (Num (Fin x)) = (x \<in> \<int> \<and> \<bar>x\<bar> < 10 ^ 21)"
proof (cases "x = 0")
  case True
  then show ?thesis by (simp add: parseInt_def parseInt_num_def strict_eq_Num)
next
  case nz: False
  show ?thesis
  proof (cases "1 / 10 ^ 6 \<le> \<bar>x\<bar> \<and> \<bar>x\<bar> < 10 ^ 21")
    case True
    then show ?thesis using nz
      by (simp add: parseInt_def parseInt_num_def strict_eq_Num js_trunc_eq_iff)
  next
    case False
    obtain p q where pq: "quotient_of \<bar>x\<bar> = (p, q)" by (cases "quotient_of \<bar>x\<bar>")
    let ?d = "lead_frac (nat p) (nat q)"
    have r: "parseInt_num (Fin x) = Fin (sgn x * of_nat ?d)"
      using nz False pq by (auto simp: parseInt_num_def)
    have dlt: "\<bar>sgn x * of_nat ?d\<bar> < (10::rat)"
      using lead_frac_lt[of "nat p" "nat q"] nz by (simp add: abs_mult)
    have int_d: "sgn x * of_nat ?d \<in> \<int>"
      by (cases "0 < x") (use nz in \<open>auto simp: sgn_if\<close>)
    have notint: "\<not> (x \<in> \<int> \<and> \<bar>x\<bar> < 10 ^ 21)"
    proof
      assume a: "x \<in> \<int> \<and> \<bar>x\<bar> < 10 ^ 21"
      with False have small: "\<bar>x\<bar> < 1 / 10 ^ 6" by simp
      from a nz have "1 \<le> \<bar>x\<bar>" by (simp add: abs_int_ge_1)
      with small show False by simp
    qed
    have ne: "sgn x * of_nat ?d \<noteq> x"
    proof (cases "\<bar>x\<bar> < 10 ^ 21")
      case True
      with notint have "x \<notin> \<int>" by simp
      with int_d show ?thesis by metis
    next
      case False
      with dlt show ?thesis by auto
    qed
    show ?thesis using r ne notint by (simp add: parseInt_def strict_eq_Num)
  qed
qed

lemma parseFloat_eq_iff: "strict_eq (parseFloat (Num v)) (Num v) = (v \<noteq> NaN)"
  by (cases v) (simp_all add: parseFloat_def parseFloat_num_def strict_eq_Num)

lemma parseInt_nonfinite:
  "\<not> strict_eq (parseInt (Num NaN)) (Num NaN)"
  "\<not> strict_eq (parseInt (Num PosInf)) (Num PosInf)"
  "\<not> strict_eq (parseInt (Num NegInf)) (Num NegInf)"
  by (simp_all add: parseInt_def parseInt_num_def strict_eq_Num)

lemma half_not_int: "(11 / 2 :: rat) \<notin> \<int>"
proof
  assume "(11 / 2 :: rat) \<in> \<int>"
  then obtain k :: int where "(11 / 2 :: rat) = of_int k" by (auto simp: Ints_def)
  then have "(of_int (2 * k) :: rat) = of_int 11" by simp
  then have "2 * k = 11" by (simp only: of_int_eq_iff)
  then show False by presburger
qed

lemma getType_Num:
  "getType (Num v) =
     (if strict_eq (parseInt (Num v)) (Num v) then Str ''longValue''
      else if strict_eq (parseFloat (Num v)) (Num v) then Str ''doubleValue''
      else Undefined)"
  by (simp add: getType_def typeof_def strict_eq_Null isDate_def isBuffer_def)

text \<open>An object with one key is split into one parameter, named by the key.\<close>

lemma formatParameters_single:
  "formatParameters hst cfg (Obj [(n, v)]) =
     bindE (formatParam hst (Str n) v (Some (formatOptions cfg))) (\<lambda>x. Inr (Arr [x]))"
  by (simp add: formatParameters_def parseParams_def typeof_def bindE_def isAtomic_def
      splitParams_def nullish_def js_get_def js_keys_def lookup_def split: sum.splits)

lemma formatParam_Num:
  "formatParam hst (Str n) (Num v) fo =
     (if strict_eq (parseInt (Num v)) (Num v)
      then Inr (Obj [(''name'', Str n), (''value'', Obj [(''longValue'', Num v)])])
      else if strict_eq (parseFloat (Num v)) (Num v)
      then Inr (Obj [(''name'', Str n), (''value'', Obj [(''doubleValue'', Num v)])])
      else Inl (UnsupportedType (Str n)))"
  by (simp add: formatParam_def getType_Num formatType_def getTypeHint_def isDate_def nullish_def)

lemma formatParameters_Num:
  "formatParameters hst cfg (Obj [(n, Num v)]) =
     (if strict_eq (parseInt (Num v)) (Num v)
      then Inr (Arr [Obj [(''name'', Str n), (''value'', Obj [(''longValue'', Num v)])]])
      else if strict_eq (parseFloat (Num v)) (Num v)
      then Inr (Arr [Obj [(''name'', Str n), (''value'', Obj [(''doubleValue'', Num v)])]])
      else Inl (UnsupportedType (Str n)))"
  by (simp add: formatParameters_single formatParam_Num bindE_def)

text \<open>
  Claim C1. A Number \<open>v\<close> supplied as the parameter \<open>n\<close> is tagged \<^verbatim>\<open>longValue\<close> when
  \<^verbatim>\<open>parseInt(v) === v\<close>, otherwise \<^verbatim>\<open>doubleValue\<close> when \<^verbatim>\<open>parseFloat(v) === v\<close>, and
  otherwise has no type; \<^verbatim>\<open>formatParameters\<close> tags \<open>5\<close> and \<open>5.0\<close> (the same Number) as
  \<^verbatim>\<open>longValue\<close> and \<open>5.5\<close> as \<^verbatim>\<open>doubleValue\<close>.
\<close>

theorem number_type_inference:
  "getType (Num v) =
     (if strict_eq (parseInt (Num v)) (Num v) then Str ''longValue''
      else if strict_eq (parseFloat (Num v)) (Num v) then Str ''doubleValue''
      else Undefined)
   \<and> formatParameters hst cfg (Obj [(n, Num v)]) =
     (if strict_eq (parseInt (Num v)) (Num v)
      then Inr (Arr [Obj [(''name'', Str n), (''value'', Obj [(''longValue'', Num v)])]])
      else if strict_eq (parseFloat (Num v)) (Num v)
      then Inr (Arr [Obj [(''name'', Str n), (''value'', Obj [(''doubleValue'', Num v)])]])
      else Inl (UnsupportedType (Str n)))
   \<and> formatParameters hst cfg (Obj [(n, Num (Fin 5))]) =
       Inr (Arr [Obj [(''name'', Str n), (''value'', Obj [(''longValue'', Num (Fin 5))])]])
   \<and> formatParameters hst cfg (Obj [(n, Num (Fin (50 / 10)))]) =
       Inr (Arr [Obj [(''name'', Str n), (''value'', Obj [(''longValue'', Num (Fin (50 / 10)))])]])
   \<and> formatParameters hst cfg (Obj [(n, Num (Fin (55 / 10)))]) =
       Inr (Arr [Obj [(''name'', Str n), (''value'', Obj [(''doubleValue'', Num (Fin (55 / 10)))])]])"
proof -
  have five: "strict_eq (parseInt (Num (Fin 5))) (Num (Fin 5))"
    by (simp add: parseInt_eq_iff)
  have half: "\<not> strict_eq (parseInt (Num (Fin (11 / 2)))) (Num (Fin (11 / 2)))"
    by (simp only: parseInt_eq_iff half_not_int simp_thms)
  have halff: "strict_eq (parseFloat (Num (Fin (11 / 2)))) (Num (Fin (11 / 2)))"
    by (simp add: parseFloat_eq_iff)
  have c: "(50 / 10 :: rat) = 5" "(55 / 10 :: rat) = 11 / 2" by simp_all
  show ?thesis
    by (simp only: getType_Num formatParameters_Num c five half halff if_True if_False simp_thms)
qed

text \<open>
  Claim C5, as the code has it. \<open>NaN\<close> matches no rule: \<^verbatim>\<open>getType\<close> gives \<^verbatim>\<open>undefined\<close> and
  \<^verbatim>\<open>formatParameters\<close> fails with the error that names the parameter. \<^verbatim>\<open>Infinity\<close> and
  \<^verbatim>\<open>-Infinity\<close> do match the float rule, since \<^verbatim>\<open>parseFloat\<close> reads \<^verbatim>\<open>Infinity\<close>: they are
  tagged \<^verbatim>\<open>doubleValue\<close>.
\<close>

theorem nonfinite_numbers:
  "getType (Num NaN) = Undefined
   \<and> formatParameters hst cfg (Obj [(n, Num NaN)]) = Inl (UnsupportedType (Str n))
   \<and> getType (Num PosInf) = Str ''doubleValue''
   \<and> formatParameters hst cfg (Obj [(n, Num PosInf)]) =
       Inr (Arr [Obj [(''name'', Str n), (''value'', Obj [(''doubleValue'', Num PosInf)])]])
   \<and> formatParameters hst cfg (Obj [(n, Num NegInf)]) =
       Inr (Arr [Obj [(''name'', Str n), (''value'', Obj [(''doubleValue'', Num NegInf)])]])"
  by (simp add: getType_Num formatParameters_Num parseInt_nonfinite parseFloat_eq_iff)

text \<open>
  Claim C5 as stated fails: the parameter \<^verbatim>\<open>{ x: Infinity }\<close> is formatted, not
  rejected.
\<close>

theorem infinity_counterexample:
  "formatParameters host_east default_config (Obj [(''x'', Num PosInf)]) =
     Inr (Arr [Obj [(''name'', Str ''x''), (''value'', Obj [(''doubleValue'', Num PosInf)])]])"
  by (simp add: formatParameters_Num parseInt_nonfinite parseFloat_eq_iff)

section \<open>The shape of the parameter argument\<close>

text \<open>
  Claim C4, as the code has it. \<^verbatim>\<open>parseParams\<close> takes an argument for present when it is
  truthy. An argument that is neither an object nor an array (its \<^verbatim>\<open>typeof\<close> is not
  \<^verbatim>\<open>'object'\<close>) is rejected with the error
  \<^verbatim>\<open>'parameters' must be an object or array\<close> when it is truthy, and gives the empty
  parameter list when it is falsy: \<^verbatim>\<open>undefined\<close> (nothing passed), \<^verbatim>\<open>false\<close>, \<open>0\<close>,
  \<open>NaN\<close> and the empty string. (\<^verbatim>\<open>null\<close>, whose \<^verbatim>\<open>typeof\<close> is \<^verbatim>\<open>'object'\<close>, is taken for
  a parameter object and fails in \<^verbatim>\<open>Object.keys\<close>.)
\<close>

theorem parameter_shape:
  "(typeof p \<noteq> ''object'' \<longrightarrow>
      formatParameters hst cfg p = (if truthy p then Inl InvalidParameterShape else Inr (Arr [])))
   \<and> formatParameters hst cfg Undefined = Inr (Arr [])
   \<and> formatParameters hst cfg Null = Inl TypeError"
proof -
  have "formatParameters hst cfg p = (if truthy p then Inl InvalidParameterShape else Inr (Arr []))"
    if "typeof p \<noteq> ''object''"
    using that
    by (cases p) (simp_all add: formatParameters_def parseParams_def typeof_def bindE_def truthy_def)
  moreover have "formatParameters hst cfg Undefined = Inr (Arr [])"
    by (simp add: formatParameters_def parseParams_def typeof_def bindE_def truthy_def)
  moreover have "formatParameters hst cfg Null = Inl TypeError"
    by (simp add: formatParameters_def parseParams_def typeof_def bindE_def nullish_def)
  ultimately show ?thesis by blast
qed

theorem parameter_shape_witness:
  "typeof (Str ''id = 5'') \<noteq> ''object''
   \<and> formatParameters host_east default_config (Str ''id = 5'') = Inl InvalidParameterShape
   \<and> typeof (Fun 2) \<noteq> ''object''
   \<and> formatParameters host_east default_config (Fun 2) = Inl InvalidParameterShape"
  using parameter_shape [of "Str ''id = 5''" host_east default_config]
        parameter_shape [of "Fun 2" host_east default_config]
  by (simp add: typeof_def truthy_def)

text \<open>
  Claim C4 as stated fails: the arguments \<open>0\<close>, the empty string and \<^verbatim>\<open>false\<close> are
  present and neither objects nor arrays, and \<^verbatim>\<open>formatParameters\<close> returns the empty
  list for them.
\<close>

theorem falsy_argument_counterexample:
  "formatParameters host_east default_config (Num (Fin 0)) = Inr (Arr [])
   \<and> formatParameters host_east default_config (Str []) = Inr (Arr [])
   \<and> formatParameters host_east default_config (Bool False) = Inr (Arr [])"
  by (simp add: formatParameters_def parseParams_def typeof_def bindE_def truthy_def)

section \<open>Atomic parameters\<close>

lemma strict_eq_Str: "strict_eq v (Str s) = (v = Str s)"
  by (cases v) (auto simp add: strict_eq_def split: jsnum.splits)

lemma getType_Str: "getType (Str s) = Str ''stringValue''"
  by (simp add: getType_def typeof_def)

lemma formatParam_Str:
  "formatParam hst n (Str s) fo =
     Inr (Obj [(''name'', n), (''value'', Obj [(''stringValue'', Str s)])])"
  by (simp add: formatParam_def getType_Str formatType_def getTypeHint_def isDate_def nullish_def)

lemma getType_Undefined: "getType Undefined = Undefined"
  by (simp add: getType_def typeof_def strict_eq_def isDate_def isBuffer_def)

lemma formatParam_Undefined: "formatParam hst n Undefined fo = Inl (UnsupportedType n)"
  by (simp add: formatParam_def getType_Undefined formatType_def getTypeHint_def isDate_def
      nullish_def)

lemma getType_tagged: "tag \<in> set supportedTypes \<Longrightarrow> getType (Obj [(tag, w)]) = Null"
  by (simp add: getType_def typeof_def strict_eq_def isDate_def isBuffer_def js_keys_def)

lemma formatParam_tagged:
  "tag \<in> set supportedTypes \<Longrightarrow>
   formatParam hst n (Obj [(tag, w)]) fo = Inr (Obj [(''name'', n), (''value'', Obj [(tag, w)])])"
  by (simp add: formatParam_def getType_tagged formatType_def getTypeHint_def isDate_def
      nullish_def)

text \<open>
  A single object as the argument: it is formatted as it is when the normalizer takes it
  for atomic, and key by key otherwise.
\<close>

lemma formatParameters_Obj:
  "formatParameters hst cfg (Obj kvs) =
     (if isAtomic (Obj kvs)
      then bindE (formatParam hst (js_get (Obj kvs) ''name'') (js_get (Obj kvs) ''value'')
                    (Some (formatOptions cfg))) (\<lambda>x. Inr (Arr [x]))
      else bindE (processParams hst (engine cfg) (Some (formatOptions cfg)) (splitParams (Obj kvs)))
             (\<lambda>r. Inr (Arr r)))"
  by (simp add: formatParameters_def parseParams_def typeof_def bindE_def nullish_def
      split: sum.splits)

lemma formatParameters_Arr1:
  "formatParameters hst cfg (Arr [Obj kvs]) = formatParameters hst cfg (Obj kvs)"
  by (simp add: formatParameters_def parseParams_def typeof_def)

text \<open>
  Claim C2, as the code has it. A parameter object in wire shape (a non-empty name, a
  value whose single key is one of the eight tag names, and either no other key or a
  truthy \<^verbatim>\<open>cast\<close> as the third key), passed alone or in an array, comes out as
  \<^verbatim>\<open>{ name, value }\<close> with the name and the tagged value unchanged. The \<^verbatim>\<open>cast\<close> key is
  not carried over: \<^verbatim>\<open>processParams\<close> builds the output from \<^verbatim>\<open>p.name\<close> and \<^verbatim>\<open>p.value\<close>
  alone.
\<close>

theorem wire_shaped_parameter:
  assumes "map_of kvs ''name'' = Some (Str n)" and "n \<noteq> []"
    and "map_of kvs ''value'' = Some (Obj [(tag, w)])" and "tag \<in> set supportedTypes"
    and "length kvs = 2 \<or> (length kvs = 3 \<and> (\<exists>c. map_of kvs ''cast'' = Some c \<and> truthy c))"
  shows "formatParameters hst cfg (Obj kvs) =
           Inr (Arr [Obj [(''name'', Str n), (''value'', Obj [(tag, w)])]])
         \<and> formatParameters hst cfg (Arr [Obj kvs]) =
           Inr (Arr [Obj [(''name'', Str n), (''value'', Obj [(tag, w)])]])"
proof -
  have at: "isAtomic (Obj kvs)"
    using assms
    by (auto simp: isAtomic_def js_keys_def js_get_def lookup_def strict_eq_Str truthy_def)
  have "formatParameters hst cfg (Obj kvs) =
           Inr (Arr [Obj [(''name'', Str n), (''value'', Obj [(tag, w)])]])"
    using assms(1,3,4)
    by (simp add: formatParameters_Obj at js_get_def lookup_def formatParam_tagged bindE_def)
  then show ?thesis by (simp add: formatParameters_Arr1)
qed

theorem wire_shaped_parameter_witness:
  "formatParameters host_east default_config
      (Obj [(''name'', Str ''x''), (''value'', Obj [(''stringValue'', Str ''hi'')])]) =
     Inr (Arr [Obj [(''name'', Str ''x''), (''value'', Obj [(''stringValue'', Str ''hi'')])]])
   \<and> formatParameters host_east default_config
      (Obj [(''name'', Str ''x''), (''value'', Obj [(''stringValue'', Str ''hi'')]),
            (''cast'', Str ''uuid'')]) =
     Inr (Arr [Obj [(''name'', Str ''x''), (''value'', Obj [(''stringValue'', Str ''hi'')])]])"
  using wire_shaped_parameter
          [of "[(''name'', Str ''x''), (''value'', Obj [(''stringValue'', Str ''hi'')])]"
              "''x''" "''stringValue''" "Str ''hi''" host_east default_config]
        wire_shaped_parameter
          [of "[(''name'', Str ''x''), (''value'', Obj [(''stringValue'', Str ''hi'')]),
                (''cast'', Str ''uuid'')]"
              "''x''" "''stringValue''" "Str ''hi''" host_east default_config]
  by (simp add: supportedTypes_def truthy_def)

text \<open>
  Claim C2 as stated fails: for
  \<^verbatim>\<open>{ name: 'x', value: { stringValue: 'hi' }, cast: 'uuid' }\<close> the output is
  \<^verbatim>\<open>[{ name: 'x', value: { stringValue: 'hi' } }]\<close>, without the \<^verbatim>\<open>cast\<close> key.
\<close>

theorem cast_counterexample:
  "formatParameters host_east default_config
      (Obj [(''name'', Str ''x''), (''value'', Obj [(''stringValue'', Str ''hi'')]),
            (''cast'', Str ''uuid'')]) =
     Inr (Arr [Obj [(''name'', Str ''x''), (''value'', Obj [(''stringValue'', Str ''hi'')])]])
   \<and> formatParameters host_east default_config
      (Obj [(''name'', Str ''x''), (''value'', Obj [(''stringValue'', Str ''hi'')]),
            (''cast'', Str ''uuid'')]) \<noteq>
     Inr (Arr [Obj [(''name'', Str ''x''), (''value'', Obj [(''stringValue'', Str ''hi'')]),
                    (''cast'', Str ''uuid'')]])"
  by (simp add: formatParameters_Obj isAtomic_def js_keys_def js_get_def lookup_def strict_eq_Str
      truthy_def formatParam_tagged supportedTypes_def bindE_def)

text \<open>
  Claim C9, as the code has it. The test of the normalizer compares \<^verbatim>\<open>p.value\<close> with
  the string \<^verbatim>\<open>'undefined'\<close>. A two-key object \<^verbatim>\<open>{ name: n, value: 'undefined' }\<close> is
  therefore not atomic: it is split into the two string parameters \<^verbatim>\<open>name\<close> and
  \<^verbatim>\<open>value\<close>, in the order of its keys. A two-key object whose \<^verbatim>\<open>value\<close> is really
  \<^verbatim>\<open>undefined\<close> is atomic when its name is not empty, and then fails type inference with
  the error that names \<open>n\<close>. With the empty name it is not atomic, because the test
  asks for a truthy \<^verbatim>\<open>p.name\<close> first: it is split, the parameter \<^verbatim>\<open>name\<close> is formatted,
  and the error names the parameter \<^verbatim>\<open>value\<close>.
\<close>

theorem undefined_string_not_atomic:
  "\<not> isAtomic (Obj [(''name'', Str n), (''value'', Str ''undefined'')])
   \<and> formatParameters hst cfg (Obj [(''name'', Str n), (''value'', Str ''undefined'')]) =
       Inr (Arr [Obj [(''name'', Str ''name''), (''value'', Obj [(''stringValue'', Str n)])],
                 Obj [(''name'', Str ''value''),
                      (''value'', Obj [(''stringValue'', Str ''undefined'')])]])
   \<and> formatParameters hst cfg (Obj [(''value'', Str ''undefined''), (''name'', Str n)]) =
       Inr (Arr [Obj [(''name'', Str ''value''),
                      (''value'', Obj [(''stringValue'', Str ''undefined'')])],
                 Obj [(''name'', Str ''name''), (''value'', Obj [(''stringValue'', Str n)])]])
   \<and> (n \<noteq> [] \<longrightarrow>
        isAtomic (Obj [(''name'', Str n), (''value'', Undefined)])
      \<and> formatParameters hst cfg (Obj [(''name'', Str n), (''value'', Undefined)]) =
          Inl (UnsupportedType (Str n))
      \<and> formatParameters hst cfg (Obj [(''value'', Undefined), (''name'', Str n)]) =
          Inl (UnsupportedType (Str n)))
   \<and> \<not> isAtomic (Obj [(''name'', Str []), (''value'', Undefined)])
   \<and> formatParameters hst cfg (Obj [(''name'', Str []), (''value'', Undefined)]) =
       Inl (UnsupportedType (Str ''value''))"
proof -
  have na1: "\<not> isAtomic (Obj [(''name'', Str n), (''value'', Str ''undefined'')])"
    by (simp add: isAtomic_def js_keys_def js_get_def lookup_def strict_eq_Str)
  have na2: "\<not> isAtomic (Obj [(''value'', Str ''undefined''), (''name'', Str n)])"
    by (simp add: isAtomic_def js_keys_def js_get_def lookup_def strict_eq_Str)
  have a1: "isAtomic (Obj [(''name'', Str n), (''value'', Undefined)])" if "n \<noteq> []"
    using that
    by (simp add: isAtomic_def js_keys_def js_get_def lookup_def strict_eq_Str truthy_def)
  have a2: "isAtomic (Obj [(''value'', Undefined), (''name'', Str n)])" if "n \<noteq> []"
    using that
    by (simp add: isAtomic_def js_keys_def js_get_def lookup_def strict_eq_Str truthy_def)
  have s1: "formatParameters hst cfg (Obj [(''name'', Str n), (''value'', Str ''undefined'')]) =
       Inr (Arr [Obj [(''name'', Str ''name''), (''value'', Obj [(''stringValue'', Str n)])],
                 Obj [(''name'', Str ''value''),
                      (''value'', Obj [(''stringValue'', Str ''undefined'')])]])"
    by (simp add: formatParameters_Obj na1 splitParams_def js_keys_def js_get_def lookup_def
        nullish_def formatParam_Str bindE_def)
  have s2: "formatParameters hst cfg (Obj [(''value'', Str ''undefined''), (''name'', Str n)]) =
       Inr (Arr [Obj [(''name'', Str ''value''),
                      (''value'', Obj [(''stringValue'', Str ''undefined'')])],
                 Obj [(''name'', Str ''name''), (''value'', Obj [(''stringValue'', Str n)])]])"
    by (simp add: formatParameters_Obj na2 splitParams_def js_keys_def js_get_def lookup_def
        nullish_def formatParam_Str bindE_def)
  have u1: "formatParameters hst cfg (Obj [(''name'', Str n), (''value'', Undefined)]) =
          Inl (UnsupportedType (Str n))" if "n \<noteq> []"
    by (simp add: formatParameters_Obj a1[OF that] js_get_def lookup_def formatParam_Undefined
        bindE_def)
  have u2: "formatParameters hst cfg (Obj [(''value'', Undefined), (''name'', Str n)]) =
          Inl (UnsupportedType (Str n))" if "n \<noteq> []"
    by (simp add: formatParameters_Obj a2[OF that] js_get_def lookup_def formatParam_Undefined
        bindE_def)
  have na3: "\<not> isAtomic (Obj [(''name'', Str []), (''value'', Undefined)])"
    by (simp add: isAtomic_def js_keys_def js_get_def lookup_def truthy_def)
  have e: "formatParameters hst cfg (Obj [(''name'', Str []), (''value'', Undefined)]) =
       Inl (UnsupportedType (Str ''value''))"
    by (simp add: formatParameters_Obj na3 splitParams_def js_keys_def js_get_def lookup_def
        nullish_def formatParam_Str formatParam_Undefined bindE_def)
  show ?thesis using na1 s1 s2 a1 u1 u2 na3 e by blast
qed

theorem undefined_string_not_atomic_witness:
  "''id'' \<noteq> []
   \<and> formatParameters host_east default_config
       (Obj [(''name'', Str ''id''), (''value'', Undefined)]) = Inl (UnsupportedType (Str ''id''))
   \<and> formatParameters host_east default_config
       (Obj [(''name'', Str ''id''), (''value'', Str ''undefined'')]) =
       Inr (Arr [Obj [(''name'', Str ''name''), (''value'', Obj [(''stringValue'', Str ''id'')])],
                 Obj [(''name'', Str ''value''),
                      (''value'', Obj [(''stringValue'', Str ''undefined'')])]])"
  using undefined_string_not_atomic [of "''id''" host_east default_config] by simp

text \<open>
  Claim C9 as stated fails: \<^verbatim>\<open>{ name: '', value: undefined }\<close> is a two-key object whose
  \<^verbatim>\<open>value\<close> is really \<^verbatim>\<open>undefined\<close>, but it is not accepted as atomic, and the error
  does not name \<open>n\<close>, the empty string, but the parameter \<^verbatim>\<open>value\<close> of the split.
\<close>

theorem empty_name_counterexample:
  "\<not> isAtomic (Obj [(''name'', Str []), (''value'', Undefined)])
   \<and> normalizeParams [Obj [(''name'', Str []), (''value'', Undefined)]] =
       Inr [Obj [(''name'', Str ''name''), (''value'', Str [])],
            Obj [(''name'', Str ''value''), (''value'', Undefined)]]
   \<and> formatParameters host_east default_config
       (Obj [(''name'', Str []), (''value'', Undefined)]) = Inl (UnsupportedType (Str ''value''))
   \<and> formatParameters host_east default_config
       (Obj [(''name'', Str []), (''value'', Undefined)]) \<noteq> Inl (UnsupportedType (Str []))"
proof -
  have na: "\<not> isAtomic (Obj [(''name'', Str []), (''value'', Undefined)])"
    by (simp add: isAtomic_def js_keys_def js_get_def lookup_def truthy_def)
  have n: "normalizeParams [Obj [(''name'', Str []), (''value'', Undefined)]] =
       Inr [Obj [(''name'', Str ''name''), (''value'', Str [])],
            Obj [(''name'', Str ''value''), (''value'', Undefined)]]"
    by (simp add: na nullish_def splitParams_def js_keys_def js_get_def lookup_def bindE_Inr)
  have f: "formatParameters host_east default_config
       (Obj [(''name'', Str []), (''value'', Undefined)]) = Inl (UnsupportedType (Str ''value''))"
    by (simp add: formatParameters_Obj na splitParams_def js_keys_def js_get_def lookup_def
        nullish_def formatParam_Str formatParam_Undefined bindE_def)
  show ?thesis using na n f by simp
qed

section \<open>Field types are found once per column\<close>

subsection \<open>The tests of the code on a raw field\<close>

lemma strict_eq_Bool: "strict_eq v (Bool b) = (v = Bool b)"
  by (cases v) (auto simp add: strict_eq_def split: jsnum.splits)

lemma lookup_distinct:
  assumes "distinct (map fst kvs)" and "(k, v) \<in> set kvs"
  shows "lookup kvs k = v"
  using assms by (simp add: lookup_def)

lemma lookup_absent: "k \<notin> set (map fst kvs) \<Longrightarrow> lookup kvs k = Undefined"
  by (simp add: lookup_def map_of_eq_None_iff[THEN iffD2])

lemma raw_fieldD:
  assumes "raw_field fld"
  shows "\<exists>kvs. fld = Obj kvs \<and> distinct (map fst kvs) \<and>
           (\<forall>k \<in> set (map fst kvs). k \<noteq> [] \<and> k \<notin> set object_prototype_names)"
  using assms by (cases fld) (simp_all add: raw_field_def list_all_iff)

lemma raw_field_not_nullish: "raw_field fld \<Longrightarrow> \<not> nullish fld"
  by (auto simp: raw_field_def nullish_def)

lemma null_marked_code:
  assumes "raw_field fld"
  shows "strict_eq (js_get fld ''isNull'') (Bool True) = null_marked fld"
proof -
  from raw_fieldD[OF assms] obtain kvs where f: "fld = Obj kvs" and d: "distinct (map fst kvs)"
    by blast
  have "(lookup kvs ''isNull'' = Bool True) = ((''isNull'', Bool True) \<in> set kvs)"
  proof
    assume "lookup kvs ''isNull'' = Bool True"
    then have "map_of kvs ''isNull'' = Some (Bool True)"
      by (simp add: lookup_def split: option.splits)
    then show "(''isNull'', Bool True) \<in> set kvs" by (rule map_of_SomeD)
  next
    assume "(''isNull'', Bool True) \<in> set kvs"
    then show "lookup kvs ''isNull'' = Bool True" by (rule lookup_distinct[OF d])
  qed
  then show ?thesis by (simp add: f strict_eq_Bool js_get_def null_marked_def)
qed

lemma value_keys_code:
  assumes "raw_field fld"
  shows "value_keys fld = populated_tags fld"
proof -
  from raw_fieldD[OF assms] obtain kvs where f: "fld = Obj kvs" and d: "distinct (map fst kvs)"
    by blast
  have "filter (\<lambda>t. t \<noteq> ''isNull'' \<and> lookup kvs t \<noteq> Null) (map fst kvs) =
        map fst (filter (\<lambda>(k, v). k \<noteq> ''isNull'' \<and> v \<noteq> Null) kvs)"
    unfolding filter_map
  proof (rule arg_cong[where f = "map fst"], rule filter_cong[OF refl])
    fix x assume "x \<in> set kvs"
    then have "(fst x, snd x) \<in> set kvs" by simp
    then have "lookup kvs (fst x) = snd x" by (rule lookup_distinct[OF d])
    then show "((\<lambda>t. t \<noteq> ''isNull'' \<and> lookup kvs t \<noteq> Null) \<circ> fst) x =
               (case x of (k, v) \<Rightarrow> k \<noteq> ''isNull'' \<and> v \<noteq> Null)"
      by (cases x) simp
  qed
  then show ?thesis
    by (simp add: f value_keys_def populated_tags_def js_keys_def js_get_def strict_eq_Null)
qed

lemma populated_tags_keys:
  assumes "raw_field fld" and "t \<in> set (populated_tags fld)"
  shows "t \<noteq> [] \<and> t \<notin> set object_prototype_names"
proof -
  from raw_fieldD[OF assms(1)] obtain kvs where f: "fld = Obj kvs"
    and k: "\<forall>k \<in> set (map fst kvs). k \<noteq> [] \<and> k \<notin> set object_prototype_names"
    by blast
  from assms(2) have "t \<in> set (map fst kvs)" by (auto simp: f populated_tags_def)
  with k show ?thesis by blast
qed

lemma js_read_raw:
  assumes "raw_field fld" and "k \<notin> set object_prototype_names"
  shows "js_read fld k = Inr (js_get fld k)"
proof -
  from raw_fieldD[OF assms(1)] obtain kvs where f: "fld = Obj kvs" by blast
  show ?thesis
    using assms(2) by (simp add: f js_read_def nullish_def js_get_def lookup_absent)
qed

lemma undefined_not_inherited: "''undefined'' \<notin> set object_prototype_names"
  by (simp add: object_prototype_names_def)

lemma obj_assign_own: "k \<noteq> ''__proto__'' \<Longrightarrow> obj_assign kvs k v = Inr (put_own kvs k v)"
  by (simp add: obj_assign_def)

text \<open>A field whose keys are distinct names of the wire format is a raw field.\<close>

lemma wire_field_raw:
  assumes "distinct (map fst kvs)" and "set (map fst kvs) \<subseteq> set supportedTypes"
  shows "raw_field (Obj kvs)"
proof -
  have "k \<noteq> [] \<and> k \<notin> set object_prototype_names" if "k \<in> set supportedTypes" for k
    using that by (auto simp: supportedTypes_def object_prototype_names_def)
  with assms show ?thesis by (auto simp: raw_field_def list_all_iff)
qed

subsection \<open>The tag of a column\<close>

text \<open>
  The tag of a column is the one of the first row whose field in the column is present
  and non-null, from that row on; above that row the column has no tag.
\<close>

lemma discovered_tag_first:
  assumes "i0 \<le> i" and "i < length rows" and "present_non_null (rows ! i0 ! j)"
    and "\<forall>i' < i0. \<not> present_non_null (rows ! i' ! j)"
  shows "discovered_tag (column_upto rows i j) = Str (last (populated_tags (rows ! i0 ! j)))"
proof -
  have len: "length (column_upto rows i j) = Suc i" using assms(2) by (simp add: column_upto_def)
  have nth: "column_upto rows i j ! k = rows ! k ! j" if "k \<le> i" for k
    using that assms(2) by (simp add: column_upto_def)
  have "find present_non_null (column_upto rows i j) = Some (rows ! i0 ! j)"
    unfolding find_Some_iff
  proof (intro exI[of _ i0] conjI allI impI)
    show "i0 < length (column_upto rows i j)" using assms(1) len by simp
    show "present_non_null (column_upto rows i j ! i0)" using assms(1,3) by (simp add: nth)
    show "rows ! i0 ! j = column_upto rows i j ! i0" using assms(1) by (simp add: nth)
    fix k assume "k < i0"
    then show "\<not> present_non_null (column_upto rows i j ! k)" using assms(1,4) by (simp add: nth)
  qed
  then show ?thesis by (simp add: discovered_tag_def)
qed

lemma discovered_tag_none:
  assumes "i < length rows" and "\<forall>i' \<le> i. \<not> present_non_null (rows ! i' ! j)"
  shows "discovered_tag (column_upto rows i j) = Undefined"
proof -
  have "\<not> present_non_null x" if "x \<in> set (column_upto rows i j)" for x
  proof -
    from that obtain k where "k < Suc i" and "x = rows ! k ! j"
      using assms(1) by (auto simp: column_upto_def in_set_conv_nth)
    with assms(2) show ?thesis by simp
  qed
  then have "find present_non_null (column_upto rows i j) = None"
    by (simp add: find_None_iff)
  then show ?thesis by (simp add: discovered_tag_def)
qed

subsection \<open>The run of \<^verbatim>\<open>formatRecords\<close>\<close>

lemma add_value_update:
  "i < length fmap \<Longrightarrow>
   add_value hydrate (fmap[i := (fmap ! i)\<lparr>e_field := x\<rparr>]) i acc v = add_value hydrate fmap i acc v"
  by (cases acc) (simp_all add: add_value_def)

lemma update_same:
  "i < length fmap \<Longrightarrow> e_field (fmap ! i) = x \<Longrightarrow> fmap[i := (fmap ! i)\<lparr>e_field := x\<rparr>] = fmap"
  by (cases "fmap ! i") (simp add: list_update_same_conv)

lemma last_populated_tag:
  assumes "raw_field fld" and "populated_tags fld \<noteq> []"
  shows "last (populated_tags fld) \<noteq> [] \<and> last (populated_tags fld) \<notin> set object_prototype_names"
proof -
  from assms(2) have "last (populated_tags fld) \<in> set (populated_tags fld)" by simp
  with assms(1) show ?thesis by (rule populated_tags_keys)
qed

lemma good_tag_learn:
  assumes "good_tag t" and "raw_field fld"
  shows "good_tag (learn t fld)"
  using assms last_populated_tag[OF assms(2)] by (auto simp: learn_def good_tag_def)

lemma format_field_step:
  assumes "i < length fmap" and "raw_field fld" and "good_tag (e_field (fmap ! i))"
  shows "format_field hst hydrate fo fmap acc i fld =
           bindE (add_value hydrate fmap i acc
                    (value_of hst fo (learn (e_field (fmap ! i)) fld) (e_typeName (fmap ! i)) fld))
             (\<lambda>acc'. Inr (fmap[i := (fmap ! i)\<lparr>e_field := learn (e_field (fmap ! i)) fld\<rparr>], acc'))"
proof -
  note code = null_marked_code[OF assms(2)] value_keys_code[OF assms(2)]
    raw_field_not_nullish[OF assms(2)]
  show ?thesis
  proof (cases "null_marked fld")
    case True
    then show ?thesis using assms(1)
      by (simp add: format_field_def code learn_def value_of_def update_same)
  next
    case nn: False
    show ?thesis
    proof (cases "truthy (e_field (fmap ! i))")
      case True
      with assms(3) obtain s where s: "e_field (fmap ! i) = Str s" "s \<noteq> []"
        "s \<notin> set object_prototype_names"
        by (auto simp: good_tag_def truthy_def)
      have r: "js_read fld s = Inr (js_get fld s)" by (rule js_read_raw[OF assms(2) s(3)])
      show ?thesis using assms(1) nn True s(1,2)
        by (simp add: format_field_def code learn_def value_of_def prop_key_def tag_key_def
            bindE_Inr update_same r)
    next
      case False
      with assms(3) have u: "e_field (fmap ! i) = Undefined"
        by (auto simp: good_tag_def truthy_def)
      show ?thesis
      proof (cases "populated_tags fld = []")
        case True
        have r: "js_read fld ''undefined'' = Inr (js_get fld ''undefined'')"
          by (rule js_read_raw[OF assms(2) undefined_not_inherited])
        show ?thesis using assms(1) nn False u True
          by (simp add: format_field_def code learn_def value_of_def prop_key_def tag_key_def
              bindE_Inr Let_def update_same list_update_id r)
      next
        case ne: False
        have r: "js_read fld (last (populated_tags fld)) =
                   Inr (js_get fld (last (populated_tags fld)))"
          using last_populated_tag[OF assms(2) ne] by (simp add: js_read_raw[OF assms(2)])
        show ?thesis using assms(1) nn u ne False
          by (simp add: format_field_def code learn_def value_of_def prop_key_def tag_key_def
              bindE_Inr Let_def add_value_update r)
      qed
    qed
  qed
qed

lemma add_value_good:
  assumes "i < length fmap" and "good_acc hydrate acc" and "good_entry hydrate (fmap ! i)"
  shows "add_value hydrate fmap i acc v = Inr (add1 hydrate acc (label_key (fmap ! i)) v)"
  using assms
  by (auto simp: add_value_def add1_def good_acc_def good_entry_def label_key_def bindE_Inr
      obj_assign_own)

lemma good_acc_add1: "good_acc hydrate acc \<Longrightarrow> good_acc hydrate (add1 hydrate acc k v)"
  by (auto simp: good_acc_def add1_def)

lemma good_entry_learn: "good_entry hydrate e \<Longrightarrow> raw_field fld \<Longrightarrow> good_entry hydrate (learn_entry e fld)"
  by (simp add: good_entry_def learn_entry_def good_tag_learn)

lemma format_fields_row:
  assumes "length es = length flds" and "list_all raw_field flds"
    and "list_all (good_entry hydrate) es" and "good_acc hydrate acc"
  shows "format_fields hst hydrate fo (pre @ es) acc (length pre) flds =
           Inr (pre @ map2 learn_entry es flds,
                foldl (\<lambda>a (e, fld). add1 hydrate a (label_key e) (entry_value hst fo e fld)) acc (zip es flds))"
  using assms
proof (induction flds arbitrary: pre es acc)
  case Nil
  then show ?case by simp
next
  case (Cons f fs)
  then obtain e es' where es: "es = e # es'" by (cases es) auto
  have nth: "(pre @ e # es') ! length pre = e" by simp
  have len: "length pre < length (pre @ e # es')" by simp
  have ge: "good_entry hydrate e" and gf: "raw_field f" using Cons.prems es by auto
  have step: "format_field hst hydrate fo (pre @ e # es') acc (length pre) f =
      Inr ((pre @ [learn_entry e f]) @ es', add1 hydrate acc (label_key e) (entry_value hst fo e f))"
    using format_field_step[OF len, of f hst hydrate fo acc] ge gf Cons.prems(4)
      add_value_good[OF len, of hydrate acc]
    by (simp add: nth good_entry_def bindE_Inr learn_entry_def entry_value_def)
  have ih: "format_fields hst hydrate fo ((pre @ [learn_entry e f]) @ es')
              (add1 hydrate acc (label_key e) (entry_value hst fo e f)) (length (pre @ [learn_entry e f])) fs =
           Inr ((pre @ [learn_entry e f]) @ map2 learn_entry es' fs,
                foldl (\<lambda>a (e, fld). add1 hydrate a (label_key e) (entry_value hst fo e fld))
                  (add1 hydrate acc (label_key e) (entry_value hst fo e f)) (zip es' fs))"
    using Cons.prems es by (intro Cons.IH) (auto simp: good_acc_add1)
  show ?case using step ih by (simp add: es bindE_Inr)
qed

lemma find_snoc: "find P (xs @ [y]) = (case find P xs of None \<Rightarrow> (if P y then Some y else None) | Some x \<Rightarrow> Some x)"
  by (induction xs) auto

lemma find_SomeD: "find P xs = Some x \<Longrightarrow> P x \<and> x \<in> set xs"
  by (induction xs) (auto split: if_splits)

lemma learn_discovered:
  assumes "list_all raw_field col" and "raw_field fld"
  shows "learn (discovered_tag col) fld = discovered_tag (col @ [fld])"
proof (cases "find present_non_null col")
  case None
  then show ?thesis
    by (auto simp: discovered_tag_def find_snoc learn_def present_non_null_def truthy_def)
next
  case (Some f)
  then have "present_non_null f" and "f \<in> set col" using find_SomeD by metis+
  with assms(1) have "raw_field f" and "populated_tags f \<noteq> []"
    by (auto simp: list_all_iff present_non_null_def)
  then have "last (populated_tags f) \<noteq> []" using last_populated_tag by simp
  with Some show ?thesis
    by (simp add: discovered_tag_def find_snoc learn_def truthy_def)
qed

lemma good_tag_discovered:
  assumes "list_all raw_field col"
  shows "good_tag (discovered_tag col)"
proof (cases "find present_non_null col")
  case None
  then show ?thesis by (simp add: discovered_tag_def good_tag_def)
next
  case (Some f)
  then have "present_non_null f" and "f \<in> set col" using find_SomeD by metis+
  with assms(1) have "raw_field f" and "populated_tags f \<noteq> []"
    by (auto simp: list_all_iff present_non_null_def)
  then have "last (populated_tags f) \<noteq> [] \<and> last (populated_tags f) \<notin> set object_prototype_names"
    by (rule last_populated_tag)
  with Some show ?thesis by (simp add: discovered_tag_def good_tag_def)
qed

lemma foldl_add1_hydrate:
  "length es = length r \<Longrightarrow>
   foldl (\<lambda>a (e, fld). add1 True a (label_key e) (entry_value hst fo e fld)) (Obj kvs) (zip es r) =
     Obj (foldl (\<lambda>kvs (k, v). put_own kvs k v) kvs
            (zip (map label_key es) (map2 (entry_value hst fo) es r)))"
proof (induction es arbitrary: r kvs)
  case Nil
  then show ?case by simp
next
  case (Cons e es)
  then obtain f fs where "r = f # fs" by (cases r) auto
  with Cons show ?case by (simp add: add1_def)
qed

lemma foldl_add1_positional:
  "length es = length r \<Longrightarrow>
   foldl (\<lambda>a (e, fld). add1 False a (label_key e) (entry_value hst fo e fld)) (Arr xs) (zip es r) =
     Arr (foldl js_concat xs (map2 (entry_value hst fo) es r))"
proof (induction es arbitrary: r xs)
  case Nil
  then show ?case by simp
next
  case (Cons e es)
  then obtain f fs where "r = f # fs" by (cases r) auto
  with Cons show ?case by (simp add: add1_def)
qed

lemma row_acc_projected:
  assumes "length es = length r"
  shows "foldl (\<lambda>a (e, fld). add1 hydrate a (label_key e) (entry_value hst fo e fld))
           (if hydrate then Obj [] else Arr []) (zip es r) =
         projected_row hydrate (map label_key es) (map2 (entry_value hst fo) es r)"
  using assms by (cases hydrate) (simp_all add: foldl_add1_hydrate foldl_add1_positional projected_row_def)

lemma format_row_spec:
  assumes "length es = length r" and "list_all raw_field r" and "list_all (good_entry hydrate) es"
  shows "format_row hst hydrate fo es (Arr r) =
           Inr (map2 learn_entry es r, projected_row hydrate (map label_key es) (map2 (entry_value hst fo) es r))"
proof -
  have "good_acc hydrate (if hydrate then Obj [] else Arr [])" by (simp add: good_acc_def)
  from format_fields_row[OF assms this, of hst fo "[]"] show ?thesis
    using assms(1)
    by (simp add: format_row_def nullish_def elements_def bindE_Inr row_acc_projected)
qed

lemma map2_learn_length: "length es = length r \<Longrightarrow> length (map2 learn_entry es r) = length es"
  by simp

lemma map2_learn_nth:
  "length es = length r \<Longrightarrow> j < length es \<Longrightarrow> map2 learn_entry es r ! j = learn_entry (es ! j) (r ! j)"
  by simp

lemma map2_learn_labels: "length es = length r \<Longrightarrow> map label_key (map2 learn_entry es r) = map label_key es"
  by (induction es r rule: list_induct2) (simp_all add: learn_entry_def label_key_def)

lemma map_upt_Suc': "map f [0..<Suc n] = f 0 # map (\<lambda>i. f (Suc i)) [0..<n]"
  by (simp add: map_upt_Suc del: upt_Suc)

lemma format_rows_spec:
  assumes "list_all (good_row (length es)) rows" and "list_all (good_row (length es)) pre"
    and "list_all (good_entry hydrate) es"
    and "\<forall>j < length es. e_field (es ! j) = discovered_tag (map (\<lambda>row. row ! j) pre)"
  shows "format_rows hst hydrate fo es (map Arr rows) =
           Inr (map (\<lambda>i. projected_row hydrate (map label_key es)
                       (map (\<lambda>j. value_of hst fo
                                   (discovered_tag (map (\<lambda>row. row ! j) (pre @ take (Suc i) rows)))
                                   (e_typeName (es ! j)) (rows ! i ! j))
                          [0..<length es]))
                  [0..<length rows])"
  using assms
proof (induction rows arbitrary: es pre)
  case Nil
  then show ?case by simp
next
  case (Cons r rs)
  let ?n = "length es"
  let ?es' = "map2 learn_entry es r"
  have r: "length r = ?n" "list_all raw_field r" using Cons.prems(1) by (simp_all add: good_row_def)
  have len: "length es = length r" using r by simp
  have len': "length ?es' = ?n" using len by simp
  have gf: "raw_field (r ! j)" if "j < ?n" for j
    using r that by (simp add: list_all_length)
  have gcol: "list_all raw_field (map (\<lambda>row. row ! j) pre)" if "j < ?n" for j
    using Cons.prems(2) that by (auto simp: list_all_iff good_row_def)
  have nth': "?es' ! j = learn_entry (es ! j) (r ! j)" if "j < ?n" for j
    by (rule map2_learn_nth[OF len that])
  have tag': "e_field (?es' ! j) = discovered_tag (map (\<lambda>row. row ! j) (pre @ [r]))" if "j < ?n" for j
    using that Cons.prems(4) learn_discovered[OF gcol[OF that] gf[OF that]]
    by (simp only: nth'[OF that]) (simp add: learn_entry_def)
  have ge': "list_all (good_entry hydrate) ?es'"
    unfolding list_all_length
  proof (intro allI impI)
    fix j assume "j < length ?es'"
    then have j: "j < ?n" using len by simp
    then have "good_entry hydrate (es ! j)" using Cons.prems(3) by (simp add: list_all_length)
    then show "good_entry hydrate (?es' ! j)"
      using gf[OF j] by (simp only: map2_learn_nth[OF len j] good_entry_learn)
  qed
  have tn': "e_typeName (?es' ! j) = e_typeName (es ! j)" if "j < ?n" for j
    by (simp only: nth'[OF that]) (simp add: learn_entry_def)
  have row0: "map2 (entry_value hst fo) es r =
      map (\<lambda>j. value_of hst fo (discovered_tag (map (\<lambda>row. row ! j) (pre @ [r])))
                  (e_typeName (es ! j)) (r ! j)) [0..<?n]"
  proof (rule nth_equalityI)
    show "length (map2 (entry_value hst fo) es r) = length (map (\<lambda>j. value_of hst fo
            (discovered_tag (map (\<lambda>row. row ! j) (pre @ [r]))) (e_typeName (es ! j)) (r ! j)) [0..<?n])"
      using len by simp
  next
    fix j assume "j < length (map2 (entry_value hst fo) es r)"
    then have j: "j < ?n" using len by simp
    have "learn (e_field (es ! j)) (r ! j) = discovered_tag (map (\<lambda>row. row ! j) (pre @ [r]))"
      using Cons.prems(4) j learn_discovered[OF gcol[OF j] gf[OF j]] by simp
    then show "map2 (entry_value hst fo) es r ! j =
        map (\<lambda>j. value_of hst fo (discovered_tag (map (\<lambda>row. row ! j) (pre @ [r])))
                  (e_typeName (es ! j)) (r ! j)) [0..<?n] ! j"
      using j len by (simp add: entry_value_def)
  qed
  have pre': "list_all (good_row (length ?es')) (pre @ [r])"
    using Cons.prems(1,2) len by simp
  have rs': "list_all (good_row (length ?es')) rs"
    using Cons.prems(1) len by simp
  have tags': "\<forall>j < length ?es'. e_field (?es' ! j) = discovered_tag (map (\<lambda>row. row ! j) (pre @ [r]))"
    using tag' len by simp
  have ih: "format_rows hst hydrate fo ?es' (map Arr rs) =
           Inr (map (\<lambda>i. projected_row hydrate (map label_key ?es')
                       (map (\<lambda>j. value_of hst fo
                                   (discovered_tag (map (\<lambda>row. row ! j) ((pre @ [r]) @ take (Suc i) rs)))
                                   (e_typeName (?es' ! j)) (rs ! i ! j))
                          [0..<length ?es']))
                  [0..<length rs])"
    by (rule Cons.IH[OF rs' pre' ge' tags'])
  have inner: "map (\<lambda>j. value_of hst fo
                                   (discovered_tag (map (\<lambda>row. row ! j) ((pre @ [r]) @ take (Suc i) rs)))
                                   (e_typeName (?es' ! j)) (rs ! i ! j))
                          [0..<length ?es'] =
               map (\<lambda>j. value_of hst fo
                                   (discovered_tag (map (\<lambda>row. row ! j) (pre @ r # take (Suc i) rs)))
                                   (e_typeName (es ! j)) (rs ! i ! j))
                          [0..<?n]" for i
    unfolding len' by (rule map_cong[OF refl]) (simp add: tn')
  have ih2: "format_rows hst hydrate fo ?es' (map Arr rs) =
           Inr (map (\<lambda>i. projected_row hydrate (map label_key es)
                       (map (\<lambda>j. value_of hst fo
                                   (discovered_tag (map (\<lambda>row. row ! j) (pre @ r # take (Suc i) rs)))
                                   (e_typeName (es ! j)) (rs ! i ! j))
                          [0..<?n]))
                  [0..<length rs])"
    using ih by (simp only: inner map2_learn_labels[OF len])
  show ?case
    using format_row_spec[OF len r(2) Cons.prems(3), of hst fo] ih2
    by (simp add: bindE_Inr row0 map_upt_Suc' del: upt_Suc)
qed

lemma make_entries_fields:
  "make_entries columns i n = Inr es \<Longrightarrow> length es = n \<and> (\<forall>e \<in> set es. e_field e = Undefined)"
proof (induction n arbitrary: i es)
  case 0
  then show ?case by simp
next
  case (Suc n)
  then show ?case
    by (auto simp: bindE_def fmap_entry_for_def split: sum.splits if_splits)
qed

lemma make_fmap_fields:
  "make_fmap recs columns = Inr es \<Longrightarrow> \<forall>e \<in> set es. e_field e = Undefined"
  using make_entries_fields
  by (fastforce simp: make_fmap_def bindE_def split: if_splits sum.splits)

lemma formatRecords_projected:
  assumes fm: "make_fmap (Arr (map Arr rows)) columns = Inr es"
    and rows: "\<forall>row \<in> set rows. length row = length es \<and>
                 (\<forall>fld \<in> set row. raw_field fld)"
    and lab: "hydrate \<longrightarrow> (\<forall>e \<in> set es. \<exists>k. prop_key (e_label e) = Inr k \<and> k \<noteq> ''__proto__'')"
  shows "formatRecords hst (Arr (map Arr rows)) columns hydrate fo =
           Inr (Arr (map (\<lambda>i. projected_row hydrate (map label_key es)
                            (map (\<lambda>j. projected_value hst fo (e_typeName (es ! j)) rows i j)
                               [0..<length es]))
                       [0..<length rows]))"
proof -
  have g1: "list_all (good_row (length es)) rows"
    using rows by (simp add: list_all_iff good_row_def)
  have g2: "list_all (good_row (length es)) []" by simp
  have g3: "list_all (good_entry hydrate) es"
    using make_fmap_fields[OF fm] lab by (auto simp: list_all_iff good_entry_def good_tag_def)
  have g4: "\<forall>j < length es. e_field (es ! j) = discovered_tag (map (\<lambda>row. row ! j) [])"
    using make_fmap_fields[OF fm] by (simp add: discovered_tag_def)
  have pv: "value_of hst fo (discovered_tag (map (\<lambda>row. row ! j) ([] @ take (Suc i) rows))) tn
              (rows ! i ! j) = projected_value hst fo tn rows i j" for i j tn
    by (simp add: projected_value_def value_of_def column_upto_def)
  have fr: "format_rows hst hydrate fo es (map Arr rows) =
           Inr (map (\<lambda>i. projected_row hydrate (map label_key es)
                            (map (\<lambda>j. projected_value hst fo (e_typeName (es ! j)) rows i j)
                               [0..<length es]))
                       [0..<length rows])"
    using format_rows_spec[OF g1 g2 g3 g4, of hst fo] by (simp only: pv)
  show ?thesis
    by (simp add: formatRecords_def fm bindE_Inr truthy_def elements_def fr)
qed

lemma example_make_fmap:
  "make_fmap (Arr (map Arr example_records)) example_columns = Inr example_fmap"
  by (simp add: make_fmap_def example_records_def example_columns_def example_fmap_def truthy_def
      js_index_def elements_def fmap_entry_for_def get_prop_def nullish_def js_get_def lookup_def
      bindE_Inr numeral_2_eq_2)

lemma upt2: "[0..<2] = [0, Suc 0]"
  by (simp add: numeral_2_eq_2)

lemma example_values:
  "projected_value hst fo (Str ''INT'') example_records 0 0 = Num (Fin 1)"
  "projected_value hst fo (Str ''VARCHAR'') example_records 0 (Suc 0) = Null"
  "projected_value hst fo (Str ''INT'') example_records (Suc 0) 0 = Num (Fin 2)"
  "projected_value hst fo (Str ''VARCHAR'') example_records (Suc 0) (Suc 0) = Str ''x''"
  by (simp_all add: projected_value_def example_records_def column_upto_def discovered_tag_def
      present_non_null_def null_marked_def populated_tags_def js_get_def lookup_def
      tag_key_def formatRecordValue_def dateTypeNames_def)


lemma example_hydrated:
  "formatRecords hst (Arr (map Arr example_records)) example_columns True fo =
     Inr (Arr [Obj [(''id'', Num (Fin 1)), (''note'', Null)],
               Obj [(''id'', Num (Fin 2)), (''note'', Str ''x'')]])"
proof -
  have len: "length example_records = 2" "length example_fmap = 2"
    by (simp_all add: example_records_def example_fmap_def)
  have tn: "e_typeName (example_fmap ! 0) = Str ''INT''" "e_typeName (example_fmap ! Suc 0) = Str ''VARCHAR''"
    by (simp_all add: example_fmap_def)
  have rows: "\<forall>row \<in> set example_records. length row = length example_fmap \<and>
                 (\<forall>fld \<in> set row. raw_field fld)"
    by (simp add: example_records_def example_fmap_def raw_field_def object_prototype_names_def)
  have lab: "True \<longrightarrow> (\<forall>e \<in> set example_fmap. \<exists>k. prop_key (e_label e) = Inr k \<and> k \<noteq> ''__proto__'')"
    by (simp add: example_fmap_def prop_key_def)
  have lk: "map label_key example_fmap = [''id'', ''note'']"
    by (simp add: example_fmap_def label_key_def prop_key_def)
  have idx: "\<not> is_index_key ''id''" "\<not> is_index_key ''note''"
    by (simp_all add: is_index_key_def all_digits_def is_digit_def)
  show ?thesis
    using formatRecords_projected[OF example_make_fmap rows lab, of hst fo]
    by (simp add: len upt2 tn example_values projected_row_def lk put_own_def idx)
qed





text \<open>
  A column labelled \<^verbatim>\<open>__proto__\<close> is not covered: its value goes to the inherited setter,
  which ignores a string, and the row has no such key.
\<close>

lemma proto_label_row:
  "formatRecords hst
     (Arr [Arr [Obj [(''stringValue'', Str ''a'')], Obj [(''longValue'', Num (Fin 1))]]])
     (Arr [Obj [(''label'', Str ''__proto__''), (''typeName'', Str ''VARCHAR'')],
           Obj [(''label'', Str ''b''), (''typeName'', Str ''INT'')]])
     True fo =
   Inr (Arr [Obj [(''b'', Num (Fin 1))]])"
  by (simp add: formatRecords_def make_fmap_def truthy_def js_index_def elements_def
      fmap_entry_for_def get_prop_def nullish_def js_get_def lookup_def bindE_Inr
      format_row_def format_field_def strict_eq_def value_keys_def js_keys_def prop_key_def
      js_read_def add_value_def obj_assign_def put_own_def typeof_def formatRecordValue_def
      dateTypeNames_def is_index_key_def all_digits_def is_digit_def Let_def numeral_2_eq_2)

section \<open>The value coercer\<close>

text \<open>
  Claim C6, as the code has it. With date deserialization enabled and one of the four
  date type names, \<^verbatim>\<open>formatRecordValue\<close> sends the value, whatever its type, through
  \<^verbatim>\<open>formatFromTimeStamp\<close>, with local-time interpretation when the configuration asks
  for it or the type name is \<^verbatim>\<open>TIMESTAMP WITH TIME ZONE\<close>. With any other type name, or
  with deserialization disabled, the value is returned unchanged. The code has no test
  of the type of the value.
\<close>

theorem value_coercer:
  "(deserializeDate f \<and> t \<in> set dateTypeNames \<longrightarrow>
      formatRecordValue hst v (Str t) (Some f) =
        formatFromTimeStamp hst v (treatAsLocalDate f \<or> t = ''TIMESTAMP WITH TIME ZONE''))
   \<and> (deserializeDate f \<longrightarrow>
      formatRecordValue hst v (Str ''TIMESTAMP WITH TIME ZONE'') (Some f) =
        formatFromTimeStamp hst v True)
   \<and> (\<not> deserializeDate f \<or> t \<notin> set dateTypeNames \<longrightarrow>
      formatRecordValue hst v (Str t) (Some f) = v)
   \<and> ((\<forall>s. tn \<noteq> Str s) \<longrightarrow> formatRecordValue hst v tn fo = v)
   \<and> formatRecordValue hst v tn None = v"
proof -
  have 4: "formatRecordValue hst v tn fo = v" if "\<forall>s. tn \<noteq> Str s"
    using that by (cases tn) (simp_all add: formatRecordValue_def)
  show ?thesis
    using 4 by (auto simp: formatRecordValue_def strict_eq_Str dateTypeNames_def)
qed

theorem value_coercer_witness:
  "deserializeDate (formatOptions default_config)
   \<and> ''DATETIME'' \<in> set dateTypeNames
   \<and> formatRecordValue host_east (Str ''2020-01-01 12:00:00'') (Str ''DATETIME'')
         (Some (formatOptions default_config)) =
       formatFromTimeStamp host_east (Str ''2020-01-01 12:00:00'') False
   \<and> ''VARCHAR'' \<notin> set dateTypeNames
   \<and> formatRecordValue host_east (Str ''2020-01-01 12:00:00'') (Str ''VARCHAR'')
         (Some (formatOptions default_config)) = Str ''2020-01-01 12:00:00''"
  using value_coercer [of "formatOptions default_config" "''DATETIME''" host_east
          "Str ''2020-01-01 12:00:00''" "Str ''DATETIME''" None]
        value_coercer [of "formatOptions default_config" "''VARCHAR''" host_east
          "Str ''2020-01-01 12:00:00''" "Str ''VARCHAR''" None]
  by (simp add: default_config_def dateTypeNames_def)

text \<open>
  Claim C6 as stated fails: the number \<open>5\<close> under the type name \<^verbatim>\<open>TIMESTAMP\<close> is not
  returned unchanged but as the Date \<^verbatim>\<open>new Date(5)\<close>, and \<^verbatim>\<open>undefined\<close> under
  \<^verbatim>\<open>DATE\<close> as an invalid Date.
\<close>

theorem non_string_value_counterexample:
  "formatRecordValue host_east (Num (Fin 5)) (Str ''TIMESTAMP'')
      (Some (formatOptions default_config)) = DateV (Some 5)
   \<and> formatRecordValue host_east (Num (Fin 5)) (Str ''TIMESTAMP'')
      (Some (formatOptions default_config)) \<noteq> Num (Fin 5)
   \<and> formatRecordValue host_east Undefined (Str ''DATE'')
      (Some (formatOptions default_config)) = DateV None"
  by (simp add: formatRecordValue_def default_config_def dateTypeNames_def formatFromTimeStamp_def
      time_of_num_def js_trunc_def TimeClip_def strict_eq_Str)

section \<open>The assembled response\<close>

lemma insertId_of_cases:
  assumes "insertId_of g = Inr ins"
  shows "ins = [] \<or> (truthy g \<and> ins = [(''insertId'', js_get (js_index g 0) ''longValue'')])"
  using assms
  by (auto simp: insertId_of_def bindE_def get_prop_def split: if_splits sum.splits)

lemma formatRecords_Arr:
  assumes "formatRecords hst recs columns hydrate fo = Inr x"
  shows "\<exists>ys. x = Arr ys"
  using assms by (auto simp: formatRecords_def bindE_def split: if_splits sum.splits)

lemma formatUpdateResults_Arr:
  assumes "formatUpdateResults res = Inr x"
  shows "\<exists>ys. x = Arr ys"
  using assms by (auto simp: formatUpdateResults_def bindE_def split: if_splits sum.splits)

lemma formatResponse_Inr:
  assumes "formatResponse hst cfg r = Inr out"
  shows "\<exists>rs us ins.
     out = Obj ((if truthy (js_get r ''columnMetadata'')
                 then [(''columnMetadata'', js_get r ''columnMetadata'')] else []) @
                (if js_get r ''numberOfRecordsUpdated'' \<noteq> Undefined \<and> \<not> truthy (js_get r ''records'')
                 then [(''numberOfRecordsUpdated'', js_get r ''numberOfRecordsUpdated'')] else []) @
                (if truthy (js_get r ''records'') then [(''records'', Arr rs)] else []) @
                (if truthy (js_get r ''updateResults'') then [(''updateResults'', Arr us)] else []) @
                ins)
     \<and> (truthy (js_get r ''records'') \<longrightarrow>
          formatRecords hst (js_get r ''records'') (js_get r ''columnMetadata'')
            (hydrateColumnNames cfg) (Some (formatOptions cfg)) = Inr (Arr rs))
     \<and> (truthy (js_get r ''updateResults'') \<longrightarrow>
          formatUpdateResults (js_get r ''updateResults'') = Inr (Arr us))
     \<and> insertId_of (js_get r ''generatedFields'') = Inr ins"
proof -
  from assms have nn: "\<not> nullish r" by (auto simp: formatResponse_def split: if_splits)
  let ?recs = "if truthy (js_get r ''records'')
               then bindE (formatRecords hst (js_get r ''records'') (js_get r ''columnMetadata'')
                             (hydrateColumnNames cfg) (Some (formatOptions cfg)))
                      (\<lambda>rs. Inr [(''records'', rs)])
               else Inr []"
  let ?upd = "if truthy (js_get r ''updateResults'')
              then bindE (formatUpdateResults (js_get r ''updateResults''))
                     (\<lambda>us. Inr [(''updateResults'', us)])
              else Inr []"
  from assms nn obtain a b c where
    a: "?recs = Inr a" and b: "?upd = Inr b" and c: "insertId_of (js_get r ''generatedFields'') = Inr c"
    and out: "out = Obj ((if truthy (js_get r ''columnMetadata'')
                 then [(''columnMetadata'', js_get r ''columnMetadata'')] else []) @
                (if js_get r ''numberOfRecordsUpdated'' \<noteq> Undefined \<and> \<not> truthy (js_get r ''records'')
                 then [(''numberOfRecordsUpdated'', js_get r ''numberOfRecordsUpdated'')] else []) @
                a @ b @ c)"
    unfolding formatResponse_def formatResults_def Let_def bindE_def
    by (auto split: sum.splits if_splits)
  have a': "\<exists>rs. a = (if truthy (js_get r ''records'') then [(''records'', Arr rs)] else []) \<and>
             (truthy (js_get r ''records'') \<longrightarrow>
               formatRecords hst (js_get r ''records'') (js_get r ''columnMetadata'')
                 (hydrateColumnNames cfg) (Some (formatOptions cfg)) = Inr (Arr rs))"
    using a formatRecords_Arr by (fastforce simp: bindE_def split: sum.splits if_splits)
  have b': "\<exists>us. b = (if truthy (js_get r ''updateResults'') then [(''updateResults'', Arr us)] else []) \<and>
             (truthy (js_get r ''updateResults'') \<longrightarrow>
               formatUpdateResults (js_get r ''updateResults'') = Inr (Arr us))"
    using b formatUpdateResults_Arr by (fastforce simp: bindE_def split: sum.splits if_splits)
  from a' b' c out show ?thesis by blast
qed

lemma insertId_of_Inr:
  assumes "insertId_of g = Inr ins"
  shows "ins = (if truthy g \<and> positive (js_get g ''length'') = Inr True
                then [(''insertId'', js_get (js_index g 0) ''longValue'')] else [])"
  using assms
  by (auto simp: insertId_of_def bindE_def get_prop_def split: if_splits sum.splits)

lemma js_keys_Obj: "js_keys (Obj kvs) = map fst kvs"
  by (simp add: js_keys_def)

lemma js_get_Obj: "js_get (Obj kvs) k = lookup kvs k"
  by (simp add: js_get_def)

text \<open>
  Claim C10. Whenever \<^verbatim>\<open>formatResponse\<close> returns, its output has the key
  \<^verbatim>\<open>columnMetadata\<close> exactly when the payload's \<^verbatim>\<open>columnMetadata\<close> is truthy, and then
  with the payload's value. The configuration has no part in it: under any two
  configurations the key is present or absent alike, with the same value.
\<close>

theorem metadata_inclusion:
  "(formatResponse hst cfg r = Inr out \<longrightarrow>
      (''columnMetadata'' \<in> set (js_keys out)) = truthy (js_get r ''columnMetadata'')
      \<and> (truthy (js_get r ''columnMetadata'') \<longrightarrow>
           js_get out ''columnMetadata'' = js_get r ''columnMetadata''))
   \<and> (formatResponse hst cfg r = Inr out \<and> formatResponse hst cfg' r = Inr out' \<longrightarrow>
      (''columnMetadata'' \<in> set (js_keys out')) = (''columnMetadata'' \<in> set (js_keys out))
      \<and> js_get out' ''columnMetadata'' = js_get out ''columnMetadata'')"
proof -
  have one: "(''columnMetadata'' \<in> set (js_keys out)) = truthy (js_get r ''columnMetadata'')
      \<and> js_get out ''columnMetadata'' =
          (if truthy (js_get r ''columnMetadata'') then js_get r ''columnMetadata'' else Undefined)"
    if "formatResponse hst cfg r = Inr out" for cfg out
  proof -
    from formatResponse_Inr[OF that] obtain rs us ins where
      out: "out = Obj ((if truthy (js_get r ''columnMetadata'')
                 then [(''columnMetadata'', js_get r ''columnMetadata'')] else []) @
                (if js_get r ''numberOfRecordsUpdated'' \<noteq> Undefined \<and> \<not> truthy (js_get r ''records'')
                 then [(''numberOfRecordsUpdated'', js_get r ''numberOfRecordsUpdated'')] else []) @
                (if truthy (js_get r ''records'') then [(''records'', Arr rs)] else []) @
                (if truthy (js_get r ''updateResults'') then [(''updateResults'', Arr us)] else []) @
                ins)"
      and ins: "insertId_of (js_get r ''generatedFields'') = Inr ins"
      by blast
    from insertId_of_Inr[OF ins] have "ins = [] \<or> (\<exists>v. ins = [(''insertId'', v)])"
      by (simp split: if_splits)
    then show ?thesis
      unfolding out by (auto simp: js_keys_Obj js_get_Obj lookup_def)
  qed
  from one[of cfg out] one[of cfg' out'] show ?thesis by simp
qed

text \<open>
  Claim C8, as the code has it. Whenever \<^verbatim>\<open>formatResponse\<close> returns, the keys of its
  output are, in this order: \<^verbatim>\<open>columnMetadata\<close> for a truthy \<^verbatim>\<open>columnMetadata\<close>,
  \<^verbatim>\<open>numberOfRecordsUpdated\<close> when the payload has one and no records, \<^verbatim>\<open>records\<close> for
  truthy records, \<^verbatim>\<open>updateResults\<close> for truthy update results, and \<^verbatim>\<open>insertId\<close> for
  generated fields of positive length. The count is left out whenever records are
  present. No key but \<^verbatim>\<open>insertId\<close> holds \<^verbatim>\<open>undefined\<close>. The only key besides
  \<^verbatim>\<open>insertId\<close> that can hold \<^verbatim>\<open>null\<close> is \<^verbatim>\<open>numberOfRecordsUpdated\<close>: it holds the
  payload's own count, so it is \<^verbatim>\<open>null\<close> exactly when the payload gave \<^verbatim>\<open>null\<close> for its
  count. The \<^verbatim>\<open>insertId\<close> is the \<^verbatim>\<open>longValue\<close> of the first generated field, whatever
  that field holds. A payload with only \<^verbatim>\<open>numberOfRecordsUpdated: 3\<close> gives exactly
  \<^verbatim>\<open>{ numberOfRecordsUpdated: 3 }\<close>.
\<close>

theorem response_keys:
  "(formatResponse hst cfg r = Inr out \<longrightarrow>
      js_keys out =
        (if truthy (js_get r ''columnMetadata'') then [''columnMetadata''] else []) @
        (if js_get r ''numberOfRecordsUpdated'' \<noteq> Undefined \<and> \<not> truthy (js_get r ''records'')
         then [''numberOfRecordsUpdated''] else []) @
        (if truthy (js_get r ''records'') then [''records''] else []) @
        (if truthy (js_get r ''updateResults'') then [''updateResults''] else []) @
        (if truthy (js_get r ''generatedFields'') \<and>
            positive (js_get (js_get r ''generatedFields'') ''length'') = Inr True
         then [''insertId''] else [])
      \<and> (truthy (js_get r ''records'') \<longrightarrow> ''numberOfRecordsUpdated'' \<notin> set (js_keys out))
      \<and> (\<forall>k \<in> set (js_keys out). k \<noteq> ''insertId'' \<longrightarrow>
            js_get out k \<noteq> Undefined \<and>
            (js_get out k = Null \<longrightarrow>
               k = ''numberOfRecordsUpdated'' \<and> js_get r ''numberOfRecordsUpdated'' = Null))
      \<and> (''numberOfRecordsUpdated'' \<in> set (js_keys out) \<longrightarrow>
            js_get out ''numberOfRecordsUpdated'' = js_get r ''numberOfRecordsUpdated'')
      \<and> (''insertId'' \<in> set (js_keys out) \<longrightarrow>
            js_get out ''insertId'' =
              js_get (js_index (js_get r ''generatedFields'') 0) ''longValue''))
   \<and> formatResponse hst cfg (Obj [(''numberOfRecordsUpdated'', Num (Fin 3))]) =
       Inr (Obj [(''numberOfRecordsUpdated'', Num (Fin 3))])"
proof -
  have ex: "formatResponse hst cfg (Obj [(''numberOfRecordsUpdated'', Num (Fin 3))]) =
       Inr (Obj [(''numberOfRecordsUpdated'', Num (Fin 3))])"
    by (simp add: formatResponse_def formatResults_def nullish_def js_get_def lookup_def truthy_def
        insertId_of_def bindE_Inr)
  have main: "js_keys out =
        (if truthy (js_get r ''columnMetadata'') then [''columnMetadata''] else []) @
        (if js_get r ''numberOfRecordsUpdated'' \<noteq> Undefined \<and> \<not> truthy (js_get r ''records'')
         then [''numberOfRecordsUpdated''] else []) @
        (if truthy (js_get r ''records'') then [''records''] else []) @
        (if truthy (js_get r ''updateResults'') then [''updateResults''] else []) @
        (if truthy (js_get r ''generatedFields'') \<and>
            positive (js_get (js_get r ''generatedFields'') ''length'') = Inr True
         then [''insertId''] else [])
      \<and> (truthy (js_get r ''records'') \<longrightarrow> ''numberOfRecordsUpdated'' \<notin> set (js_keys out))
      \<and> (\<forall>k \<in> set (js_keys out). k \<noteq> ''insertId'' \<longrightarrow>
            js_get out k \<noteq> Undefined \<and>
            (js_get out k = Null \<longrightarrow>
               k = ''numberOfRecordsUpdated'' \<and> js_get r ''numberOfRecordsUpdated'' = Null))
      \<and> (''numberOfRecordsUpdated'' \<in> set (js_keys out) \<longrightarrow>
            js_get out ''numberOfRecordsUpdated'' = js_get r ''numberOfRecordsUpdated'')
      \<and> (''insertId'' \<in> set (js_keys out) \<longrightarrow>
            js_get out ''insertId'' =
              js_get (js_index (js_get r ''generatedFields'') 0) ''longValue'')"
    if "formatResponse hst cfg r = Inr out"
  proof -
    from formatResponse_Inr[OF that] obtain rs us ins where
      out: "out = Obj ((if truthy (js_get r ''columnMetadata'')
                 then [(''columnMetadata'', js_get r ''columnMetadata'')] else []) @
                (if js_get r ''numberOfRecordsUpdated'' \<noteq> Undefined \<and> \<not> truthy (js_get r ''records'')
                 then [(''numberOfRecordsUpdated'', js_get r ''numberOfRecordsUpdated'')] else []) @
                (if truthy (js_get r ''records'') then [(''records'', Arr rs)] else []) @
                (if truthy (js_get r ''updateResults'') then [(''updateResults'', Arr us)] else []) @
                ins)"
      and ins: "insertId_of (js_get r ''generatedFields'') = Inr ins"
      by blast
    have tr: "truthy v \<Longrightarrow> v \<noteq> Undefined \<and> v \<noteq> Null" for v
      by (auto simp: truthy_def)
    let ?c = "truthy (js_get r ''generatedFields'') \<and>
            positive (js_get (js_get r ''generatedFields'') ''length'') = Inr True"
    show ?thesis
    proof (cases ?c)
      case True
      with insertId_of_Inr[OF ins]
      have i: "ins = [(''insertId'', js_get (js_index (js_get r ''generatedFields'') 0) ''longValue'')]"
        by simp
      show ?thesis
        using True tr[of "js_get r ''columnMetadata''"]
        unfolding out i by (simp add: js_keys_Obj js_get_Obj lookup_def)
    next
      case False
      with insertId_of_Inr[OF ins] have i: "ins = []" by simp
      show ?thesis
        using False tr[of "js_get r ''columnMetadata''"]
        unfolding out i by (simp add: js_keys_Obj js_get_Obj lookup_def)
    qed
  qed
  from main ex show ?thesis by blast
qed

lemma select_response:
  "formatResponse host_east default_config
     (Obj [(''columnMetadata'', example_columns), (''numberOfRecordsUpdated'', Num (Fin 0)),
           (''records'', Arr (map Arr example_records))]) =
   Inr (Obj [(''columnMetadata'', example_columns),
             (''records'', Arr [Obj [(''id'', Num (Fin 1)), (''note'', Null)],
                                Obj [(''id'', Num (Fin 2)), (''note'', Str ''x'')]])])"
proof -
  have t: "truthy example_columns" "truthy (Arr (map Arr example_records))"
    by (simp_all add: truthy_def example_columns_def)
  have h: "hydrateColumnNames default_config" by (simp add: default_config_def)
  show ?thesis
    by (simp add: formatResponse_def formatResults_def nullish_def js_get_def lookup_def t h
        example_hydrated insertId_of_def bindE_Inr truthy_def[of Undefined])
qed

theorem metadata_inclusion_witness:
  "formatResponse host_east default_config
     (Obj [(''columnMetadata'', example_columns), (''numberOfRecordsUpdated'', Num (Fin 0)),
           (''records'', Arr (map Arr example_records))]) =
   Inr (Obj [(''columnMetadata'', example_columns),
             (''records'', Arr [Obj [(''id'', Num (Fin 1)), (''note'', Null)],
                                Obj [(''id'', Num (Fin 2)), (''note'', Str ''x'')]])])
   \<and> ''columnMetadata'' \<in> set (js_keys
         (Obj [(''columnMetadata'', example_columns),
               (''records'', Arr [Obj [(''id'', Num (Fin 1)), (''note'', Null)],
                                  Obj [(''id'', Num (Fin 2)), (''note'', Str ''x'')]])]))
   \<and> truthy (js_get
         (Obj [(''columnMetadata'', example_columns), (''numberOfRecordsUpdated'', Num (Fin 0)),
               (''records'', Arr (map Arr example_records))]) ''columnMetadata'')"
  using metadata_inclusion
          [of host_east default_config
              "Obj [(''columnMetadata'', example_columns), (''numberOfRecordsUpdated'', Num (Fin 0)),
                    (''records'', Arr (map Arr example_records))]"
              "Obj [(''columnMetadata'', example_columns),
                    (''records'', Arr [Obj [(''id'', Num (Fin 1)), (''note'', Null)],
                                       Obj [(''id'', Num (Fin 2)), (''note'', Str ''x'')]])]"
              default_config
              "Obj [(''columnMetadata'', example_columns),
                    (''records'', Arr [Obj [(''id'', Num (Fin 1)), (''note'', Null)],
                                       Obj [(''id'', Num (Fin 2)), (''note'', Str ''x'')]])]"]
        select_response
  by (simp add: js_keys_def js_get_def lookup_def truthy_def example_columns_def)

lemma insert_response:
  "formatResponse host_east default_config
     (Obj [(''numberOfRecordsUpdated'', Num (Fin 1)),
           (''generatedFields'', Arr [Obj [(''longValue'', Num (Fin 7))]])]) =
   Inr (Obj [(''numberOfRecordsUpdated'', Num (Fin 1)), (''insertId'', Num (Fin 7))])"
  by (simp add: formatResponse_def formatResults_def nullish_def js_get_def lookup_def truthy_def
      insertId_of_def positive_def js_index_def get_prop_def bindE_Inr)

lemma null_count_response:
  "formatResponse hst cfg (Obj [(''numberOfRecordsUpdated'', Null)]) =
     Inr (Obj [(''numberOfRecordsUpdated'', Null)])"
  by (simp add: formatResponse_def formatResults_def nullish_def js_get_def lookup_def truthy_def
      insertId_of_def bindE_Inr)

theorem response_keys_witness:
  "formatResponse host_east default_config
     (Obj [(''numberOfRecordsUpdated'', Num (Fin 1)),
           (''generatedFields'', Arr [Obj [(''longValue'', Num (Fin 7))]])]) =
   Inr (Obj [(''numberOfRecordsUpdated'', Num (Fin 1)), (''insertId'', Num (Fin 7))])
   \<and> js_keys (Obj [(''numberOfRecordsUpdated'', Num (Fin 1)), (''insertId'', Num (Fin 7))]) =
       [''numberOfRecordsUpdated'', ''insertId'']
   \<and> js_get (Obj [(''numberOfRecordsUpdated'', Num (Fin 1)), (''insertId'', Num (Fin 7))])
         ''numberOfRecordsUpdated'' \<noteq> Undefined"
  using response_keys
          [of host_east default_config
              "Obj [(''numberOfRecordsUpdated'', Num (Fin 1)),
                    (''generatedFields'', Arr [Obj [(''longValue'', Num (Fin 7))]])]"
              "Obj [(''numberOfRecordsUpdated'', Num (Fin 1)), (''insertId'', Num (Fin 7))]"]
        insert_response
  by (simp add: js_keys_def js_get_def lookup_def)

text \<open>
  Claim C8 as stated fails: when the first generated field carries a tag other than
  \<^verbatim>\<open>longValue\<close>, the output has the key \<^verbatim>\<open>insertId\<close> with the value \<^verbatim>\<open>undefined\<close>.
\<close>

theorem insertId_counterexample:
  "formatResponse host_east default_config
     (Obj [(''numberOfRecordsUpdated'', Num (Fin 1)),
           (''generatedFields'', Arr [Obj [(''stringValue'', Str ''a1b2'')]])]) =
   Inr (Obj [(''numberOfRecordsUpdated'', Num (Fin 1)), (''insertId'', Undefined)])"
  by (simp add: formatResponse_def formatResults_def nullish_def js_get_def lookup_def truthy_def
      insertId_of_def positive_def js_index_def get_prop_def bindE_Inr)

section \<open>The timestamp round trip\<close>

subsection \<open>The calendar\<close>

text \<open>
  The year, month and day that the calendar functions read from a time value give the
  day number of that time value back, and the four fields of the time within the day
  give the time value itself.
\<close>

lemma div_lo: fixes a k :: int assumes "0 < k" shows "k * (a div k) \<le> a"
proof -
  have "a = k * (a div k) + a mod k" by simp
  moreover have "0 \<le> a mod k" using assms by simp
  ultimately show ?thesis by linarith
qed

lemma div_hi: fixes a k :: int assumes "0 < k" shows "a < k * (a div k) + k"
proof -
  have "a = k * (a div k) + a mod k" by simp
  moreover have "a mod k < k" using assms by simp
  ultimately show ?thesis by linarith
qed

lemma DayFromYear_lower:
  fixes d :: int
  shows "DayFromYear (1970 + (400 * d) div 146097 - 1) \<le> d"
proof -
  define q where "q = (400 * d) div 146097"
  define A where "A = q div 4"
  define B where "B = (q + 68) div 100"
  define C where "C = (q + 368) div 400"
  have q: "146097 * q \<le> 400 * d" unfolding q_def by (rule div_lo) simp
  have a: "4 * A \<le> q" unfolding A_def by (rule div_lo) simp
  have b: "q + 68 < 100 * B + 100" unfolding B_def by (rule div_hi) simp
  have c: "400 * C \<le> q + 368" unfolding C_def by (rule div_lo) simp
  have "DayFromYear (1970 + q - 1) = 365 * (q - 1) + A - B + C"
    by (simp add: DayFromYear_def A_def B_def C_def add.commute)
  moreover have "365 * (q - 1) + A - B + C \<le> d"
  proof -
    have "400 * A \<le> 100 * q" using a by simp
    moreover have "4 * q - 128 < 400 * B" using b by simp
    ultimately have "400 * (365 * (q - 1) + A - B + C) \<le> 400 * d" using q c by simp
    then show ?thesis by simp
  qed
  ultimately show ?thesis by (simp add: q_def)
qed

lemma DayFromYear_upper:
  fixes d :: int
  shows "d < DayFromYear (1970 + (400 * d) div 146097 + 2)"
proof -
  define q where "q = (400 * d) div 146097"
  define A where "A = (q + 3) div 4"
  define B where "B = (q + 71) div 100"
  define C where "C = (q + 371) div 400"
  have q: "400 * d < 146097 * q + 146097" unfolding q_def by (rule div_hi) simp
  have a: "q + 3 < 4 * A + 4" unfolding A_def by (rule div_hi) simp
  have b: "100 * B \<le> q + 71" unfolding B_def by (rule div_lo) simp
  have c: "q + 371 < 400 * C + 400" unfolding C_def by (rule div_hi) simp
  have "DayFromYear (1970 + q + 2) = 365 * (q + 2) + A - B + C"
    by (simp add: DayFromYear_def A_def B_def C_def add.commute)
  moreover have "d < 365 * (q + 2) + A - B + C"
  proof -
    have "100 * q - 100 < 400 * A" using a by simp
    moreover have "400 * B \<le> 4 * q + 284" using b by simp
    ultimately have "400 * d < 400 * (365 * (q + 2) + A - B + C)" using q c by simp
    then show ?thesis by simp
  qed
  ultimately show ?thesis by (simp add: q_def)
qed

lemma YearFromDay_bounds:
  "DayFromYear (YearFromDay d) \<le> d \<and> d < DayFromYear (YearFromDay d + 1)"
  using DayFromYear_lower[of d] DayFromYear_upper[of d]
  by (auto simp: YearFromDay_def Let_def)

lemma time_split:
  fixes t :: int
  shows "MakeDate (Day t) (MakeTime (HourFromTime t) (MinFromTime t) (SecFromTime t) (msFromTime t)) = t"
proof -
  have 1: "t = 1000 * (t div 1000) + t mod 1000" by simp
  have 2: "t div 1000 = 60 * (t div 1000 div 60) + (t div 1000) mod 60" by simp
  have 3: "t div 60000 = 60 * (t div 60000 div 60) + (t div 60000) mod 60" by simp
  have 4: "t div 3600000 = 24 * (t div 3600000 div 24) + (t div 3600000) mod 24" by simp
  have 5: "t div 1000 div 60 = t div 60000" by (simp add: div_mult2_eq [symmetric])
  have 6: "t div 60000 div 60 = t div 3600000" by (simp add: div_mult2_eq [symmetric])
  have 7: "t div 3600000 div 24 = t div 86400000" by (simp add: div_mult2_eq [symmetric])
  show ?thesis
    unfolding MakeDate_def Day_def MakeTime_def HourFromTime_def MinFromTime_def SecFromTime_def
      msFromTime_def msPerDay_def
    using 1 2 3 4 5 6 7 by linarith
qed

lemma div_step:
  fixes a k :: int
  assumes "0 < k"
  shows "(a + 1) div k = a div k + (if (a + 1) mod k = 0 then 1 else 0)"
proof -
  define q where "q = a div k"
  define r where "r = a mod k"
  have a: "a = k * q + r" and r: "0 \<le> r" "r < k" using assms by (simp_all add: q_def r_def)
  show ?thesis
  proof (cases "r + 1 = k")
    case True
    then have "a + 1 = k * (q + 1) + 0" using a by (simp add: algebra_simps)
    then have "(a + 1) div k = q + 1" and "(a + 1) mod k = 0"
      using assms by (metis int_div_pos_eq order_refl, metis int_mod_pos_eq order_refl)
    then show ?thesis by (simp add: q_def)
  next
    case False
    then have lt: "r + 1 < k" using r by simp
    have "a + 1 = k * q + (r + 1)" using a by simp
    then have "(a + 1) div k = q" and "(a + 1) mod k = r + 1"
      using lt r by (metis int_div_pos_eq add_nonneg_nonneg zero_le_one, metis int_mod_pos_eq add_nonneg_nonneg zero_le_one)
    then show ?thesis using r by (simp add: q_def)
  qed
qed

lemma mod_shift: "((y::int) + k * c) mod k = y mod k"
  by simp

lemma m4: "((y::int) - 1968) mod 4 = 0 \<longleftrightarrow> y mod 4 = 0"
  using mod_shift[of y 4 "- 492"] by simp

lemma m100: "((y::int) - 1900) mod 100 = 0 \<longleftrightarrow> y mod 100 = 0"
  using mod_shift[of y 100 "- 19"] by simp

lemma m400: "((y::int) - 1600) mod 400 = 0 \<longleftrightarrow> y mod 400 = 0"
  using mod_shift[of y 400 "- 4"] by simp

lemma mod_coarser:
  fixes y :: int
  assumes "k dvd n" and "y mod n = 0"
  shows "y mod k = 0"
  using assms by (meson dvd_trans mod_0_imp_dvd dvd_imp_mod_0)

lemma DayFromYear_Suc:
  "DayFromYear (y + 1) = DayFromYear y + 365 + (if isLeapYear y then 1 else 0)"
proof -
  have a: "(y + 1 - 1969) div 4 = (y - 1969) div 4 + (if y mod 4 = 0 then 1 else 0)"
    using div_step[of 4 "y - 1969"] m4[of y] by (simp add: algebra_simps)
  have b: "(y + 1 - 1901) div 100 = (y - 1901) div 100 + (if y mod 100 = 0 then 1 else 0)"
    using div_step[of 100 "y - 1901"] m100[of y] by (simp add: algebra_simps)
  have c: "(y + 1 - 1601) div 400 = (y - 1601) div 400 + (if y mod 400 = 0 then 1 else 0)"
    using div_step[of 400 "y - 1601"] m400[of y] by (simp add: algebra_simps)
  have d: "y mod 400 = 0 \<Longrightarrow> y mod 100 = 0 \<and> y mod 4 = 0"
    using mod_coarser[of 100 400 y] mod_coarser[of 4 400 y] by simp
  have e: "y mod 100 = 0 \<Longrightarrow> y mod 4 = 0"
    using mod_coarser[of 4 100 y] by simp
  define A where "A = (y - 1969) div 4"
  define B where "B = (y - 1901) div 100"
  define C where "C = (y - 1601) div 400"
  define P4 where "P4 = (y mod 4 = 0)"
  define P100 where "P100 = (y mod 100 = 0)"
  define P400 where "P400 = (y mod 400 = 0)"
  have imp: "P400 \<Longrightarrow> P100" "P100 \<Longrightarrow> P4"
    using d e by (simp_all add: P4_def P100_def P400_def)
  have "365 * (y + 1 - 1970) + (A + (if P4 then 1 else 0)) - (B + (if P100 then 1 else 0))
          + (C + (if P400 then 1 else 0)) =
        365 * (y - 1970) + A - B + C + 365 + (if P4 \<and> (\<not> P100 \<or> P400) then 1 else 0)"
    using imp by (cases P4; cases P100; cases P400; simp)
  then show ?thesis
    unfolding DayFromYear_def isLeapYear_def a b c A_def B_def C_def P4_def P100_def P400_def
    by simp
qed

lemma DayWithinYear_bounds:
  "0 \<le> DayWithinYear t \<and> DayWithinYear t < 365 + InLeapYear t"
  using YearFromDay_bounds[of "Day t"] DayFromYear_Suc[of "YearFromTime t"]
  by (simp add: DayWithinYear_def InLeapYear_def YearFromTime_def)

lemma MonthFromTime_bounds: "0 \<le> MonthFromTime t \<and> MonthFromTime t \<le> 11"
  by (simp add: MonthFromTime_def Let_def)

lemma month_table:
  fixes w l :: int
  assumes "0 \<le> w" and "w < 365 + l" and "l = 0 \<or> l = 1"
  defines "m \<equiv> (if w < 31 then 0
         else if w < 59 + l then 1
         else if w < 90 + l then 2
         else if w < 120 + l then 3
         else if w < 151 + l then 4
         else if w < 181 + l then 5
         else if w < 212 + l then 6
         else if w < 243 + l then 7
         else if w < 273 + l then 8
         else if w < 304 + l then 9
         else if w < 334 + l then 10
         else (11::int))"
  shows "1 \<le> w - DaysBeforeMonth l m + 1 \<and>
         w - DaysBeforeMonth l m + 1 \<le>
           (if m = 1 then 28 + l else if m = 3 \<or> m = 5 \<or> m = 8 \<or> m = 10 then 30 else 31)"
  using assms(1,2,3) unfolding m_def DaysBeforeMonth_def
  by (auto split: if_splits)

lemma DateFromTime_bounds:
  "1 \<le> DateFromTime t \<and> DateFromTime t \<le> DaysInMonth (YearFromTime t) (MonthFromTime t)"
proof -
  have l: "InLeapYear t = 0 \<or> InLeapYear t = 1" by (simp add: InLeapYear_def)
  have dm: "DaysInMonth (YearFromTime t) m =
      (if m = 1 then 28 + InLeapYear t else if m = 3 \<or> m = 5 \<or> m = 8 \<or> m = 10 then 30 else 31)" for m
    by (simp add: DaysInMonth_def InLeapYear_def)
  show ?thesis
    using month_table[OF conjunct1[OF DayWithinYear_bounds] conjunct2[OF DayWithinYear_bounds] l]
    unfolding DateFromTime_def dm MonthFromTime_def Let_def .
qed

lemma MakeDay_inverse:
  "MakeDay (YearFromTime t) (MonthFromTime t) (DateFromTime t) = Day t"
  by (simp add: MakeDay_def DateFromTime_def InLeapYear_def DayWithinYear_def)

lemma time_fields_bounds:
  "0 \<le> HourFromTime t \<and> HourFromTime t < 24 \<and> 0 \<le> MinFromTime t \<and> MinFromTime t < 60 \<and>
   0 \<le> SecFromTime t \<and> SecFromTime t < 60 \<and> 0 \<le> msFromTime t \<and> msFromTime t < 1000"
  by (simp add: HourFromTime_def MinFromTime_def SecFromTime_def msFromTime_def)

lemma DayFromYear_le_linear: "400 * DayFromYear y \<le> 146097 * (y - 1970) + 592"
proof -
  define A where "A = (y - 1969) div 4"
  define B where "B = (y - 1901) div 100"
  define C where "C = (y - 1601) div 400"
  have a: "4 * A \<le> y - 1969" unfolding A_def by (rule div_lo) simp
  have b: "y - 1901 < 100 * B + 100" unfolding B_def by (rule div_hi) simp
  have c: "400 * C \<le> y - 1601" unfolding C_def by (rule div_lo) simp
  have "400 * A \<le> 100 * (y - 1969)" using a by simp
  moreover have "4 * (y - 1901) - 400 < 400 * B" using b by simp
  ultimately have "400 * (365 * (y - 1970) + A - B + C) \<le> 146097 * (y - 1970) + 592"
    using c by simp
  then show ?thesis by (simp add: DayFromYear_def A_def B_def C_def)
qed

lemma DayFromYear_ge_linear: "146097 * (y - 1970) - 1000 \<le> 400 * DayFromYear y"
proof -
  define A where "A = (y - 1969) div 4"
  define B where "B = (y - 1901) div 100"
  define C where "C = (y - 1601) div 400"
  have a: "y - 1969 < 4 * A + 4" unfolding A_def by (rule div_hi) simp
  have b: "100 * B \<le> y - 1901" unfolding B_def by (rule div_lo) simp
  have c: "y - 1601 < 400 * C + 400" unfolding C_def by (rule div_hi) simp
  have "100 * (y - 1969) - 400 < 400 * A" using a by simp
  moreover have "400 * B \<le> 4 * (y - 1901)" using b by simp
  ultimately have "146097 * (y - 1970) - 1000 \<le> 400 * (365 * (y - 1970) + A - B + C)"
    using c by simp
  then show ?thesis by (simp add: DayFromYear_def A_def B_def C_def)
qed

lemma four_digit_year_in_range:
  assumes "1000 \<le> YearFromTime t" and "YearFromTime t \<le> 9999"
  shows "TimeClip t = Some t"
proof -
  let ?y = "YearFromTime t"
  have lo: "DayFromYear ?y \<le> Day t" and hi: "Day t < DayFromYear (?y + 1)"
    using YearFromDay_bounds[of "Day t"] by (simp_all add: YearFromTime_def)
  have "400 * DayFromYear (?y + 1) \<le> 146097 * (?y + 1 - 1970) + 592"
    by (rule DayFromYear_le_linear)
  with assms(2) have "400 * DayFromYear (?y + 1) \<le> 146097 * 8030 + 592" by simp
  then have d_hi: "Day t < 3000000" using hi by simp
  have "146097 * (?y - 1970) - 1000 \<le> 400 * DayFromYear ?y" by (rule DayFromYear_ge_linear)
  with assms(1) have "146097 * (-970) - 1000 \<le> 400 * DayFromYear ?y" by simp
  then have d_lo: "- 400000 \<le> Day t" using lo by simp
  have t1: "t < msPerDay * (Day t) + msPerDay" unfolding Day_def by (rule div_hi) (simp add: msPerDay_def)
  have t2: "msPerDay * (Day t) \<le> t" unfolding Day_def by (rule div_lo) (simp add: msPerDay_def)
  have "\<bar>t\<bar> \<le> 8640000000000000"
    using t1 t2 d_hi d_lo by (simp add: msPerDay_def)
  then show ?thesis by (simp add: TimeClip_def)
qed

subsection \<open>Timestamps of nineteen characters\<close>

text \<open>
  For a year of four digits and no milliseconds \<^verbatim>\<open>formatToTimeStamp\<close> writes the
  nineteen characters of \<open>stamp19\<close>, which have the shape that \<^verbatim>\<open>formatFromTimeStamp\<close>
  tests for and are read back field by field.
\<close>

lemma of_char_digit: "d < 10 \<Longrightarrow> (of_char (digit_char d) :: nat) = 48 + d"
  by (simp add: digit_char_def)

lemma is_digit_digit_char: "d < 10 \<Longrightarrow> is_digit (digit_char d)"
  by (simp add: is_digit_def of_char_digit)

lemma digit_val_digit_char: "d < 10 \<Longrightarrow> digit_val (digit_char d) = d"
  by (simp add: digit_val_def of_char_digit)

lemma show_nat_1: "n < 10 \<Longrightarrow> show_nat n = [digit_char n]"
  by (simp add: show_nat.simps)

lemma show_nat_2: "10 \<le> n \<Longrightarrow> n < 100 \<Longrightarrow> show_nat n = [digit_char (n div 10), digit_char (n mod 10)]"
  by (subst show_nat.simps) (simp add: show_nat_1)

lemma show_nat_3:
  "100 \<le> n \<Longrightarrow> n < 1000 \<Longrightarrow>
   show_nat n = [digit_char (n div 100), digit_char (n div 10 mod 10), digit_char (n mod 10)]"
  by (subst show_nat.simps) (simp add: show_nat_2 div_mult2_eq[symmetric])

lemma show_nat_4:
  "1000 \<le> n \<Longrightarrow> n < 10000 \<Longrightarrow>
   show_nat n = [digit_char (n div 1000), digit_char (n div 100 mod 10),
                 digit_char (n div 10 mod 10), digit_char (n mod 10)]"
  by (subst show_nat.simps) (simp add: show_nat_3 div_mult2_eq[symmetric])

lemma digit_char_0: "digit_char 0 = CHR ''0''"
proof -
  have "(of_char (digit_char 0) :: nat) = of_char CHR ''0''" by (simp add: digit_char_def)
  then show ?thesis by (simp only: of_char_eq_iff)
qed

lemma pad2:
  assumes "n < 100"
  shows "pad (show_nat n) 2 = Inr [digit_char (n div 10), digit_char (n mod 10)]"
proof (cases "n < 10")
  case True
  then show ?thesis by (simp add: pad_def show_nat_1 digit_char_0 numeral_2_eq_2)
next
  case False
  then show ?thesis using assms by (simp add: pad_def show_nat_2)
qed

lemma read_nat_2:
  "a < 10 \<Longrightarrow> b < 10 \<Longrightarrow> read_nat [digit_char a, digit_char b] = 10 * a + b"
  by (simp add: read_nat_def digit_val_digit_char)

lemma read_nat_4:
  "a < 10 \<Longrightarrow> b < 10 \<Longrightarrow> c < 10 \<Longrightarrow> d < 10 \<Longrightarrow>
   read_nat [digit_char a, digit_char b, digit_char c, digit_char d] = 1000 * a + 100 * b + 10 * c + d"
  by (simp add: read_nat_def digit_val_digit_char)

lemma digits4:
  fixes n :: nat
  assumes "n < 10000"
  shows "1000 * (n div 1000) + 100 * (n div 100 mod 10) + 10 * (n div 10 mod 10) + n mod 10 = n"
proof -
  have 1: "n = 10 * (n div 10) + n mod 10" by simp
  have 2: "n div 10 = 10 * (n div 10 div 10) + n div 10 mod 10" by simp
  have 3: "n div 100 = 10 * (n div 100 div 10) + n div 100 mod 10" by simp
  have 4: "n div 10 div 10 = n div 100" by (simp add: div_mult2_eq[symmetric])
  have 5: "n div 100 div 10 = n div 1000" by (simp add: div_mult2_eq[symmetric])
  show ?thesis using 1 2 3 4 5 by linarith
qed

lemma stamp19_regex:
  assumes "y < 10000" "mo < 100" "d < 100" "h < 100" "mi < 100" "s < 100"
  shows "timestamp_regex (stamp19 y mo d h mi s)"
  using assms
  by (simp add: stamp19_def timestamp_regex_def date_shape_def time_shape_def all_digits_def
      is_digit_digit_char is_space_def)

lemma stamp19_parse:
  assumes "y < 10000" "mo < 100" "d < 100" "h < 100" "mi < 100" "s < 100" and "100 \<le> y"
  shows "parse_utc_timestamp (stamp19 y mo d h mi s @ ''Z'') = utc_of_fields y mo d h mi s 0"
proof -
  have b: "butlast (stamp19 y mo d h mi s @ ''Z'') = stamp19 y mo d h mi s"
    by (simp add: butlast_append)
  have l: "length (stamp19 y mo d h mi s @ ''Z'') = 20" by (simp add: stamp19_def)
  have r: "read_nat (take 4 (stamp19 y mo d h mi s @ ''Z'')) = y"
          "read_nat (take 2 (drop 5 (stamp19 y mo d h mi s @ ''Z''))) = mo"
          "read_nat (take 2 (drop 8 (stamp19 y mo d h mi s @ ''Z''))) = d"
          "read_nat (take 2 (drop 11 (stamp19 y mo d h mi s @ ''Z''))) = h"
          "read_nat (take 2 (drop 14 (stamp19 y mo d h mi s @ ''Z''))) = mi"
          "read_nat (take 2 (drop 17 (stamp19 y mo d h mi s @ ''Z''))) = s"
    using assms by (simp_all add: stamp19_def read_nat_2 read_nat_4 digits4)
  have sp: "(stamp19 y mo d h mi s @ ''Z'') ! 10 = CHR '' ''" by (simp add: stamp19_def)
  show ?thesis
    unfolding parse_utc_timestamp_def b l r
    using stamp19_regex[OF assms(1-6)] sp assms(7) by simp
qed

lemma show_int_nonneg: "0 \<le> i \<Longrightarrow> show_int i = show_nat (nat i)"
  by (simp add: show_int_def)

lemma format_utc:
  assumes "1000 \<le> YearFromTime t" and "YearFromTime t \<le> 9999" and "msFromTime t = 0"
  shows "formatToTimeStamp hst (Some t) False =
           Inr (stamp19 (nat (YearFromTime t)) (nat (MonthFromTime t + 1)) (nat (DateFromTime t))
                  (nat (HourFromTime t)) (nat (MinFromTime t)) (nat (SecFromTime t)))"
proof -
  have mo: "0 \<le> MonthFromTime t + 1" "nat (MonthFromTime t + 1) < 100"
    using MonthFromTime_bounds[of t] by linarith+
  have dm: "DaysInMonth (YearFromTime t) (MonthFromTime t) \<le> 31" by (simp add: DaysInMonth_def)
  have d: "0 \<le> DateFromTime t" "nat (DateFromTime t) < 100"
    using DateFromTime_bounds[of t] dm by linarith+
  have tf: "0 \<le> HourFromTime t" "nat (HourFromTime t) < 100"
           "0 \<le> MinFromTime t" "nat (MinFromTime t) < 100"
           "0 \<le> SecFromTime t" "nat (SecFromTime t) < 100"
    using time_fields_bounds[of t] by linarith+
  have y: "0 \<le> YearFromTime t" "1000 \<le> nat (YearFromTime t)" "nat (YearFromTime t) < 10000"
    using assms by linarith+
  show ?thesis
    using assms(3)
    by (simp add: formatToTimeStamp_def Let_def bindE_Inr show_int_nonneg mo d tf y pad2
        show_nat_4 stamp19_def)
qed

lemma utc_fields_of_time:
  assumes "1000 \<le> YearFromTime t" and "YearFromTime t \<le> 9999" and "msFromTime t = 0"
  shows "utc_of_fields (nat (YearFromTime t)) (nat (MonthFromTime t + 1)) (nat (DateFromTime t))
           (nat (HourFromTime t)) (nat (MinFromTime t)) (nat (SecFromTime t)) 0 = Some t"
proof -
  have mo: "0 \<le> MonthFromTime t" "MonthFromTime t \<le> 11"
    using MonthFromTime_bounds[of t] by simp_all
  have d: "1 \<le> DateFromTime t" "DateFromTime t \<le> DaysInMonth (YearFromTime t) (MonthFromTime t)"
    using DateFromTime_bounds[of t] by simp_all
  have tf: "0 \<le> HourFromTime t" "HourFromTime t < 24" "0 \<le> MinFromTime t" "MinFromTime t < 60"
           "0 \<le> SecFromTime t" "SecFromTime t < 60"
    using time_fields_bounds[of t] by simp_all
  have y: "0 \<le> YearFromTime t" using assms(1) by simp
  have i: "int (nat (YearFromTime t)) = YearFromTime t"
          "int (nat (MonthFromTime t + 1)) - 1 = MonthFromTime t"
          "int (nat (DateFromTime t)) = DateFromTime t"
          "int (nat (HourFromTime t)) = HourFromTime t"
          "int (nat (MinFromTime t)) = MinFromTime t"
          "int (nat (SecFromTime t)) = SecFromTime t"
    using y mo d tf by simp_all
  have g: "1 \<le> nat (MonthFromTime t + 1)" "nat (MonthFromTime t + 1) \<le> 12"
          "1 \<le> nat (DateFromTime t)"
          "nat (HourFromTime t) < 24" "nat (MinFromTime t) < 60" "nat (SecFromTime t) < 60"
    using mo d tf by linarith+
  have s: "MakeDate (Day t) (MakeTime (HourFromTime t) (MinFromTime t) (SecFromTime t) 0) = t"
    using time_split[of t] assms(3) by simp
  show ?thesis
    unfolding utc_of_fields_def i
    using g d(2) by (simp add: MakeDay_inverse s four_digit_year_in_range[OF assms(1,2)])
qed

subsection \<open>Formatting, then parsing\<close>

text \<open>
  Claim C7, as the code has it. For every time value whose UTC year has four digits
  (1000 to 9999) and whose UTC milliseconds are zero, \<^verbatim>\<open>formatToTimeStamp\<close> without
  local-time interpretation succeeds, and \<^verbatim>\<open>formatFromTimeStamp\<close> without local-time
  interpretation reads its text back as the Date of the same time value, to the
  millisecond and on every host. The year is the only field that
  \<^verbatim>\<open>formatToTimeStamp\<close> does not pad, and the shape that \<^verbatim>\<open>formatFromTimeStamp\<close>
  tests for has exactly four digits there.
\<close>

theorem timestamp_round_trip:
  assumes "1000 \<le> YearFromTime t" and "YearFromTime t \<le> 9999" and "msFromTime t = 0"
  shows "bindE (formatToTimeStamp hst (Some t) False)
           (\<lambda>s. Inr (formatFromTimeStamp hst (Str s) False)) = Inr (DateV (Some t))"
proof -
  let ?s = "stamp19 (nat (YearFromTime t)) (nat (MonthFromTime t + 1)) (nat (DateFromTime t))
              (nat (HourFromTime t)) (nat (MinFromTime t)) (nat (SecFromTime t))"
  have dm: "DaysInMonth (YearFromTime t) (MonthFromTime t) \<le> 31" by (simp add: DaysInMonth_def)
  have b: "nat (YearFromTime t) < 10000" "nat (MonthFromTime t + 1) < 100"
          "nat (DateFromTime t) < 100" "nat (HourFromTime t) < 100"
          "nat (MinFromTime t) < 100" "nat (SecFromTime t) < 100"
    using assms(2) MonthFromTime_bounds[of t] DateFromTime_bounds[of t] dm time_fields_bounds[of t]
    by linarith+
  have f: "formatToTimeStamp hst (Some t) False = Inr ?s" by (rule format_utc[OF assms])
  have r: "timestamp_regex ?s" by (rule stamp19_regex[OF b])
  have c: "100 \<le> nat (YearFromTime t)" using assms(1) by linarith
  have p: "parse_utc_timestamp (?s @ ''Z'') = Some t"
    unfolding stamp19_parse[OF b c] by (rule utc_fields_of_time[OF assms])
  show ?thesis
    unfolding f bindE_Inr by (simp add: formatFromTimeStamp_def date_of_string_def r newDate_def p)
qed

text \<open>Noon of 1 January 2020 and noon of 1 January 10000, both UTC.\<close>

lemma digit_chars:
  "digit_char 0 = CHR ''0''" "digit_char 1 = CHR ''1''" "digit_char 2 = CHR ''2''"
  "digit_char 3 = CHR ''3''" "digit_char 4 = CHR ''4''" "digit_char 5 = CHR ''5''"
  "digit_char 6 = CHR ''6''" "digit_char 7 = CHR ''7''" "digit_char 8 = CHR ''8''"
  "digit_char 9 = CHR ''9''"
  by (simp_all only: of_char_eq_iff[where ?'a = nat, symmetric]) (simp_all add: digit_char_def)

lemma digit_char_Suc_0: "digit_char (Suc 0) = CHR ''1''"
  using digit_chars(2) by simp

lemmas calendar_defs =
  YearFromTime_def YearFromDay_def Day_def msPerDay_def DayFromYear_def msFromTime_def
  MonthFromTime_def DayWithinYear_def InLeapYear_def isLeapYear_def DateFromTime_def
  DaysBeforeMonth_def HourFromTime_def MinFromTime_def SecFromTime_def Let_def

lemma new_year_10000_fields:
  "YearFromTime 253402344000000 = 10000" "MonthFromTime 253402344000000 = 0"
  "DateFromTime 253402344000000 = 1" "HourFromTime 253402344000000 = 12"
  "MinFromTime 253402344000000 = 0" "SecFromTime 253402344000000 = 0"
  "msFromTime 253402344000000 = 0"
  by (simp_all add: calendar_defs)

lemma new_year_10000_text:
  "formatToTimeStamp hst (Some 253402344000000) False = Inr ''10000-01-01 12:00:00''"
  by (simp add: formatToTimeStamp_def new_year_10000_fields Let_def bindE_Inr pad_def show_int_def
      show_nat.simps digit_chars digit_char_Suc_0)

lemma new_year_10000_shape: "\<not> timestamp_regex ''10000-01-01 12:00:00''"
  by (simp add: timestamp_regex_def date_shape_def all_digits_def is_digit_def)

lemma new_year_10000_no_zone: "parse_utc_timestamp ''10000-01-01 12:00:00'' = None"
  by (simp add: parse_utc_timestamp_def)

lemma new_year_10000_local:
  "local_timestamp ''10000-01-01 12:00:00'' = Some 253402340400000"
  by (simp add: local_timestamp_def Let_def is_digit_def timestamp_regex_def date_shape_def
      time_shape_def all_digits_def is_space_def read_nat_def digit_val_def utc_of_fields_def
      DaysInMonth_def MakeDay_def MakeDate_def MakeTime_def TimeClip_def DayFromYear_def
      isLeapYear_def DaysBeforeMonth_def msPerDay_def)

lemma noon_2020_fields:
  "YearFromTime 1577880000000 = 2020" "msFromTime 1577880000000 = 0"
  by (simp_all add: calendar_defs)

theorem timestamp_round_trip_witness:
  "YearFromTime 1577880000000 = 2020 \<and> msFromTime 1577880000000 = 0 \<and>
   bindE (formatToTimeStamp host_east (Some 1577880000000) False)
     (\<lambda>s. Inr (formatFromTimeStamp host_east (Str s) False)) = Inr (DateV (Some 1577880000000))"
  using timestamp_round_trip[of 1577880000000 host_east] by (simp add: noon_2020_fields)

text \<open>
  Claim C7 as stated fails: it speaks of every date with zero milliseconds. Noon of
  1 January 10000 UTC is a valid Date; its text \<^verbatim>\<open>10000-01-01 12:00:00\<close> has five digits
  in the year, so it does not have the shape, no \<^verbatim>\<open>Z\<close> is put after it, and what
  \<^verbatim>\<open>new Date\<close> makes of it is left to the host. A host one hour east of Greenwich that
  reads it as local time gives a Date one hour earlier.
\<close>

theorem five_digit_year_counterexample:
  "msFromTime 253402344000000 = 0 \<and>
   TimeClip 253402344000000 = Some 253402344000000 \<and>
   formatToTimeStamp host_east (Some 253402344000000) False = Inr ''10000-01-01 12:00:00'' \<and>
   \<not> timestamp_regex ''10000-01-01 12:00:00'' \<and>
   (\<forall>hst. formatFromTimeStamp hst (Str ''10000-01-01 12:00:00'') False =
           DateV (parseOther hst ''10000-01-01 12:00:00'')) \<and>
   bindE (formatToTimeStamp host_east (Some 253402344000000) False)
     (\<lambda>s. Inr (formatFromTimeStamp host_east (Str s) False)) = Inr (DateV (Some 253402340400000))"
proof -
  have h: "formatFromTimeStamp hst (Str ''10000-01-01 12:00:00'') False =
             DateV (parseOther hst ''10000-01-01 12:00:00'')" for hst
    unfolding formatFromTimeStamp_def date_of_string_def newDate_def
    using new_year_10000_shape new_year_10000_no_zone by simp
  have e: "parseOther host_east = local_timestamp" by (simp add: host_east_def)
  show ?thesis
    using h new_year_10000_shape
    by (simp add: new_year_10000_fields TimeClip_def new_year_10000_text bindE_Inr e
        new_year_10000_local)
qed

end
